theory Spec2Isabelle
  imports Complex_Main
begin

section \<open>Board and game state (class Game of server.js)\<close>

text \<open>
  A cell of the 19x19 board holds \<open>null\<close> or the colour string of the stone on it.
  Colours are the JavaScript strings \<open>'black'\<close> and \<open>'white'\<close>; the methods of
  \<open>Game\<close> accept any string as \<open>player\<close>, the socket handlers only ever pass
  one of the two. Coordinates are integer-valued JavaScript numbers.
\<close>

type_synonym cell = "string option"
type_synonym board = "cell list list"
type_synonym coord = "int \<times> int"
type_synonym socketId = string

definition black :: string where "black = ''black''"
definition white :: string where "white = ''white''"

text \<open>\<open>Array.from({ length: 19 }, () => Array(19).fill(null))\<close>\<close>

definition initializeBoard :: board where
  "initializeBoard = replicate 19 (replicate 19 None)"

text \<open>
  \<open>board[row][col]\<close>: every read and write of the source is behind a bounds check
  on \<open>row\<close> and \<open>col\<close>, so the index is in range whenever the board is 19x19.
\<close>

definition cellAt :: "board \<Rightarrow> int \<Rightarrow> int \<Rightarrow> cell" where
  "cellAt b row col = b ! nat row ! nat col"

definition setCell :: "board \<Rightarrow> int \<Rightarrow> int \<Rightarrow> cell \<Rightarrow> board" where
  "setCell b row col v = b[nat row := (b ! nat row)[nat col := v]]"

definition wfBoard :: "board \<Rightarrow> bool" where
  "wfBoard b \<longleftrightarrow> length b = 19 \<and> list_all (\<lambda>r. length r = 19) b"

record move =
  mvRow :: int
  mvCol :: int
  mvPlayer :: string
  mvTimestamp :: nat
  mvNumber :: nat

record game =
  gameId :: string
  player1 :: socketId
  player2 :: socketId
  player1Name :: string
  player2Name :: string
  board :: board
  currentPlayer :: string
  winner :: "string option"
  gameOver :: bool
  moveCount :: nat
  moveHistory :: "move list"
  createdAt :: nat
  lastMoveAt :: nat
  disconnectTimeout :: "socketId option"

text \<open>The constructor; \<open>gid\<close> stands for the generated id, \<open>now\<close> for \<open>new Date()\<close>.\<close>

definition newGame :: "string \<Rightarrow> socketId \<Rightarrow> socketId \<Rightarrow> string \<Rightarrow> string \<Rightarrow> nat \<Rightarrow> game" where
  "newGame gid p1 p2 p1Name p2Name now =
     \<lparr> gameId = gid, player1 = p1, player2 = p2,
       player1Name = p1Name, player2Name = p2Name,
       board = initializeBoard, currentPlayer = black, winner = None,
       gameOver = False, moveCount = 0, moveHistory = [],
       createdAt = now, lastMoveAt = now, disconnectTimeout = None \<rparr>"

subsection \<open>isValidMove\<close>

datatype validation = Valid | Invalid string

definition isValidMove :: "game \<Rightarrow> int \<Rightarrow> int \<Rightarrow> string \<Rightarrow> validation" where
  "isValidMove g row col player =
     (if row < 0 \<or> row \<ge> 19 \<or> col < 0 \<or> col \<ge> 19 then Invalid ''Move out of bounds''
      else if cellAt (board g) row col \<noteq> None then Invalid ''Position already occupied''
      else if currentPlayer g \<noteq> player then Invalid ''Not your turn''
      else if gameOver g then Invalid ''Game is over''
      else Valid)"

subsection \<open>checkWin\<close>

definition directions :: "(int \<times> int) list" where
  "directions = [(0, 1), (1, 0), (1, 1), (1, -1)]"

datatype winResult = Won "coord list" | NotWon

text \<open>
  The two inner loops of \<open>checkWin\<close>, \<open>for (let i = 1; i < 5; i++)\<close>, with the loop
  state \<open>(count, winningStones)\<close>: the first pushes at the end, the second unshifts
  at the front; both leave at the first cell that is off the board or not \<open>player\<close>'s.
\<close>

function checkWinPositive ::
  "board \<Rightarrow> int \<Rightarrow> int \<Rightarrow> int \<Rightarrow> int \<Rightarrow> string \<Rightarrow> int \<Rightarrow> nat \<times> coord list \<Rightarrow> nat \<times> coord list" where
  "checkWinPositive b row col dx dy player i (count, winningStones) =
     (if i < 5 then
        (let newRow = row + i * dx; newCol = col + i * dy in
         if newRow \<ge> 0 \<and> newRow < 19 \<and> newCol \<ge> 0 \<and> newCol < 19 \<and>
            cellAt b newRow newCol = Some player
         then checkWinPositive b row col dx dy player (i + 1)
                (count + 1, winningStones @ [(newRow, newCol)])
         else (count, winningStones))
      else (count, winningStones))"
  by pat_completeness auto
termination
  by (relation "measure (\<lambda>(b, row, col, dx, dy, player, i, s). nat (5 - i))") auto

function checkWinNegative ::
  "board \<Rightarrow> int \<Rightarrow> int \<Rightarrow> int \<Rightarrow> int \<Rightarrow> string \<Rightarrow> int \<Rightarrow> nat \<times> coord list \<Rightarrow> nat \<times> coord list" where
  "checkWinNegative b row col dx dy player i (count, winningStones) =
     (if i < 5 then
        (let newRow = row - i * dx; newCol = col - i * dy in
         if newRow \<ge> 0 \<and> newRow < 19 \<and> newCol \<ge> 0 \<and> newCol < 19 \<and>
            cellAt b newRow newCol = Some player
         then checkWinNegative b row col dx dy player (i + 1)
                (count + 1, (newRow, newCol) # winningStones)
         else (count, winningStones))
      else (count, winningStones))"
  by pat_completeness auto
termination
  by (relation "measure (\<lambda>(b, row, col, dx, dy, player, i, s). nat (5 - i))") auto

text \<open>One pass of the outer loop body: the state after both inner loops.\<close>

definition checkWinAxis :: "board \<Rightarrow> int \<Rightarrow> int \<Rightarrow> string \<Rightarrow> int \<times> int \<Rightarrow> nat \<times> coord list" where
  "checkWinAxis b row col player d =
     checkWinNegative b row col (fst d) (snd d) player 1
       (checkWinPositive b row col (fst d) (snd d) player 1 (1, [(row, col)]))"

text \<open>The outer loop \<open>for (let [dx, dy] of directions)\<close>, returning at the first axis
  with \<open>count >= 5\<close>.\<close>

fun checkWinDirs :: "board \<Rightarrow> int \<Rightarrow> int \<Rightarrow> string \<Rightarrow> (int \<times> int) list \<Rightarrow> winResult" where
  "checkWinDirs b row col player [] = NotWon"
| "checkWinDirs b row col player (d # ds) =
     (case checkWinAxis b row col player d of
        (count, winningStones) \<Rightarrow>
          if count \<ge> 5 then Won winningStones
          else checkWinDirs b row col player ds)"

definition checkWin :: "board \<Rightarrow> int \<Rightarrow> int \<Rightarrow> string \<Rightarrow> winResult" where
  "checkWin b row col player = checkWinDirs b row col player directions"

definition won :: "winResult \<Rightarrow> bool" where
  "won r = (case r of Won _ \<Rightarrow> True | NotWon \<Rightarrow> False)"

subsection \<open>makeMove\<close>

datatype moveResult =
    MoveFailed string
  | MoveOk bool "string option" string

definition success :: "moveResult \<Rightarrow> bool" where
  "success r = (case r of MoveFailed _ \<Rightarrow> False | MoveOk _ _ _ \<Rightarrow> True)"

text \<open>
  \<open>makeMove\<close> mutates the game it is called on; the model returns the result together
  with the game after the call. \<open>now\<close> is the clock reading of \<open>new Date()\<close>.
\<close>

definition makeMove :: "game \<Rightarrow> int \<Rightarrow> int \<Rightarrow> string \<Rightarrow> nat \<Rightarrow> moveResult \<times> game" where
  "makeMove g row col player now =
     (case isValidMove g row col player of
        Invalid reason \<Rightarrow> (MoveFailed reason, g)
      | Valid \<Rightarrow>
         (let g1 = g\<lparr> board := setCell (board g) row col (Some player),
                      moveCount := moveCount g + 1,
                      lastMoveAt := now \<rparr>;
              g2 = g1\<lparr> moveHistory := moveHistory g1 @
                         [\<lparr> mvRow = row, mvCol = col, mvPlayer = player,
                            mvTimestamp = now, mvNumber = moveCount g1 \<rparr>] \<rparr>;
              winResult = checkWin (board g2) row col player;
              g3 = (if won winResult then g2\<lparr> gameOver := True, winner := Some player \<rparr>
                    else if moveCount g2 \<ge> 19 * 19 then g2\<lparr> gameOver := True, winner := Some ''draw'' \<rparr>
                    else g2\<lparr> currentPlayer :=
                               (if currentPlayer g2 = black then white else black) \<rparr>)
          in (MoveOk (gameOver g3) (winner g3) (currentPlayer g3), g3)))"

declare checkWinPositive.simps [simp del] checkWinNegative.simps [simp del]

section \<open>Reference predicates for win detection\<close>

text \<open>The cell \<open>(r, c)\<close> is on the board and holds a stone of \<open>player\<close>.\<close>

definition holdsAt :: "board \<Rightarrow> string \<Rightarrow> int \<Rightarrow> int \<Rightarrow> bool" where
  "holdsAt b player r c \<longleftrightarrow> 0 \<le> r \<and> r < 19 \<and> 0 \<le> c \<and> c < 19 \<and> cellAt b r c = Some player"

text \<open>
  The brute-force scan in the words of the specification: over the four axes and all
  19 x 19 start cells, take the line of five cells from the start cell along the axis;
  the scan succeeds when some such line contains \<open>(row, col)\<close> and all its five cells
  are on the board and hold \<open>player\<close>.
\<close>

definition bruteForceWin :: "board \<Rightarrow> int \<Rightarrow> int \<Rightarrow> string \<Rightarrow> bool" where
  "bruteForceWin b row col player \<longleftrightarrow>
     list_ex (\<lambda>d. list_ex (\<lambda>r0. list_ex (\<lambda>c0.
        (let line = map (\<lambda>k. (r0 + k * fst d, c0 + k * snd d)) [0..4]
         in (row, col) \<in> set line \<and> list_all (\<lambda>(r, c). holdsAt b player r c) line))
       [0..18]) [0..18]) directions"

text \<open>
  What the two inner loops compute along one axis: \<open>N\<close> cells on the negative side and
  \<open>P\<close> cells on the positive side of \<open>(row, col)\<close>, each at most 4, all holding
  \<open>player\<close>, and each side stopped by a cell that does not (or by the limit 4).
\<close>

definition axisRun :: "board \<Rightarrow> string \<Rightarrow> int \<Rightarrow> int \<Rightarrow> int \<Rightarrow> int \<Rightarrow> nat \<Rightarrow> nat \<Rightarrow> bool" where
  "axisRun b player row col dx dy N P \<longleftrightarrow>
     P \<le> 4 \<and> N \<le> 4
     \<and> (\<forall>k. - int N \<le> k \<and> k \<le> int P \<and> k \<noteq> 0 \<longrightarrow> holdsAt b player (row + k * dx) (col + k * dy))
     \<and> (P < 4 \<longrightarrow> \<not> holdsAt b player (row + (int P + 1) * dx) (col + (int P + 1) * dy))
     \<and> (N < 4 \<longrightarrow> \<not> holdsAt b player (row + (- int N - 1) * dx) (col + (- int N - 1) * dy))"

section \<open>Example positions\<close>

text \<open>Playing a list of moves through \<open>makeMove\<close>, as the move handler does one by one.\<close>

fun playMoves :: "game \<Rightarrow> (int \<times> int \<times> string) list \<Rightarrow> game" where
  "playMoves g [] = g"
| "playMoves g ((row, col, player) # ms) = playMoves (snd (makeMove g row col player 0)) ms"

definition game0 :: game where
  "game0 = newGame ''g1'' ''s1'' ''s2'' ''ann'' ''bob'' 0"

text \<open>Black holds (9,5) (9,6) (9,8) (9,9) (9,10), white five scattered cells of row 10;
  black is to move and (9,7) is empty.\<close>

definition gapGame :: game where
  "gapGame = playMoves game0
     [(9, 5, black), (10, 5, white), (9, 6, black), (10, 6, white), (9, 8, black),
      (10, 8, white), (9, 9, black), (10, 9, white), (9, 10, black), (10, 10, white)]"

text \<open>Black holds (3,3) (4,3) (5,3) (6,3); black is to move.\<close>

definition columnGame :: game where
  "columnGame = playMoves game0
     [(3, 3, black), (3, 4, white), (4, 3, black), (4, 5, white), (5, 3, black),
      (5, 4, white), (6, 3, black), (6, 5, white)]"

section \<open>Server state and socket handlers (server.js)\<close>

text \<open>
  The module-level registries. A socket is identified by its \<open>socket.id\<close>; the
  comparison \<open>game.player1 === socket\<close> is the comparison of the ids. The
  \<open>Set\<close> of restart votes of a game is a set of socket ids, its \<open>size\<close> the
  cardinality.
\<close>

record historyMove =
  hmRow :: int
  hmCol :: int
  hmPlayer :: string
  hmPlayerName :: string
  hmTimestamp :: nat
  hmNumber :: nat

record historyEntry =
  hPlayers :: "string list"
  hCreatedAt :: nat
  hMoves :: "historyMove list"
  hEndedAt :: "nat option"
  hReason :: "string option"

record server =
  games :: "string \<rightharpoonup> game"
  waitingPlayers :: "socketId list"
  startOverRequests :: "string \<rightharpoonup> socketId set"
  gameHistory :: "string \<rightharpoonup> historyEntry"
  connectedPlayers :: "socketId \<rightharpoonup> string"
  playerNames :: "string set"
  playerGameMap :: "string \<rightharpoonup> string"

text \<open>
  What a handler sends: \<open>socket.emit(name, {message})\<close>, an emit that carries a game
  state, and \<open>io.to(gameId).emit(name, gameState)\<close>.
\<close>

datatype event =
    Emit socketId string string
  | EmitGame socketId string game
  | Broadcast string string game

text \<open>
  The reset block shared by the restart and the new-game handlers:
  \<open>game.board = game.initializeBoard(); game.currentPlayer = 'black'; game.winner = null;
  game.gameOver = false; game.moveCount = 0; game.moveHistory = []; game.lastMoveAt = new Date()\<close>.
\<close>

definition resetGame :: "game \<Rightarrow> nat \<Rightarrow> game" where
  "resetGame g now =
     g\<lparr> board := initializeBoard, currentPlayer := black, winner := None,
        gameOver := False, moveCount := 0, moveHistory := [], lastMoveAt := now \<rparr>"

text \<open>
  Every handler takes the server state, the socket the message arrived on and the
  fields of the message, and returns the events sent and the state after the call.
  A game id is falsy in JavaScript when it is the empty string.
\<close>

definition onMakeMove ::
  "server \<Rightarrow> socketId \<Rightarrow> string \<Rightarrow> int \<Rightarrow> int \<Rightarrow> nat \<Rightarrow> event list \<times> server" where
  "onMakeMove s socket gid row col now =
     (if connectedPlayers s socket = None
      then ([Emit socket ''usernameRequired'' ''Please set your username first''], s)
      else if gid = [] then ([Emit socket ''moveError'' ''Invalid move data''], s)
      else if row < 0 \<or> row \<ge> 19 \<or> col < 0 \<or> col \<ge> 19
      then ([Emit socket ''moveError'' ''Move out of bounds''], s)
      else case games s gid of
        None \<Rightarrow> ([Emit socket ''moveError'' ''Game not found''], s)
      | Some game \<Rightarrow>
         (let isPlayer1 = (player1 game = socket); isPlayer2 = (player2 game = socket) in
          if \<not> isPlayer1 \<and> \<not> isPlayer2
          then ([Emit socket ''moveError'' ''You are not part of this game''], s)
          else
            (let player = (if isPlayer1 then black else white);
                 playerName = the (connectedPlayers s socket);
                 (moveResult, game') = makeMove game row col player now
             in case moveResult of
                  MoveFailed reason \<Rightarrow> ([Emit socket ''moveError'' reason], s)
                | MoveOk over w cur \<Rightarrow>
                   (let hist = (case gameHistory s gid of
                                  None \<Rightarrow> gameHistory s
                                | Some h \<Rightarrow> (gameHistory s)(gid \<mapsto> h\<lparr> hMoves := hMoves h @
                                     [\<lparr> hmRow = row, hmCol = col, hmPlayer = player,
                                        hmPlayerName = playerName, hmTimestamp = now,
                                        hmNumber = moveCount game' \<rparr>] \<rparr>));
                        s' = s\<lparr> games := (games s)(gid \<mapsto> game'), gameHistory := hist \<rparr>
                    in ([Broadcast gid ''gameUpdate'' game', EmitGame socket ''moveConfirmed'' game']
                        @ (if over then [Broadcast gid ''gameEnded'' game'] else []), s')))))"

definition onRequestStartOver ::
  "server \<Rightarrow> socketId \<Rightarrow> string \<Rightarrow> nat \<Rightarrow> event list \<times> server" where
  "onRequestStartOver s socket gid now =
     (if connectedPlayers s socket = None
      then ([Emit socket ''usernameRequired'' ''Please set your username first''], s)
      else if gid = [] then ([Emit socket ''startOverError'' ''Invalid game ID''], s)
      else case games s gid of
        None \<Rightarrow> ([Emit socket ''startOverError'' ''Game not found''], s)
      | Some game \<Rightarrow>
         (let isPlayer1 = (player1 game = socket); isPlayer2 = (player2 game = socket) in
          if \<not> isPlayer1 \<and> \<not> isPlayer2
          then ([Emit socket ''startOverError'' ''You are not part of this game''], s)
          else
            (let requests = insert socket
                   (case startOverRequests s gid of None \<Rightarrow> {} | Some r \<Rightarrow> r);
                 s1 = s\<lparr> startOverRequests := (startOverRequests s)(gid \<mapsto> requests) \<rparr>;
                 otherPlayer = (if isPlayer1 then player2 game else player1 game);
                 notify = [Emit otherPlayer ''startOverRequested'' ''wants to start over. Click to confirm.'']
             in if card requests = 2
                then (let game' = resetGame game now;
                          s2 = s1\<lparr> games := (games s1)(gid \<mapsto> game'),
                                   startOverRequests := (startOverRequests s1)(gid := None) \<rparr>
                      in (notify @ [Broadcast gid ''gameRestarted'' game'], s2))
                else (notify, s1))))"

definition onRequestNewGame ::
  "server \<Rightarrow> socketId \<Rightarrow> string \<Rightarrow> event list \<times> server" where
  "onRequestNewGame s socket gid =
     (if connectedPlayers s socket = None
      then ([Emit socket ''usernameRequired'' ''Please set your username first''], s)
      else if gid = [] then ([Emit socket ''newGameError'' ''Invalid game ID''], s)
      else case games s gid of
        None \<Rightarrow> ([Emit socket ''newGameError'' ''Game not found''], s)
      | Some game \<Rightarrow>
         (let isPlayer1 = (player1 game = socket); isPlayer2 = (player2 game = socket) in
          if \<not> isPlayer1 \<and> \<not> isPlayer2
          then ([Emit socket ''newGameError'' ''You are not part of this game''], s)
          else
            (let otherPlayer = (if isPlayer1 then player2 game else player1 game)
             in ([Emit otherPlayer ''newGameRequested'' ''wants to start a new game. Do you want to start over?'',
                  Emit socket ''newGameRequestSent'' ''Waiting for response...''], s))))"

definition onRespondToNewGame ::
  "server \<Rightarrow> socketId \<Rightarrow> string \<Rightarrow> bool \<Rightarrow> nat \<Rightarrow> event list \<times> server" where
  "onRespondToNewGame s socket gid accept now =
     (if connectedPlayers s socket = None
      then ([Emit socket ''usernameRequired'' ''Please set your username first''], s)
      else if gid = [] then ([Emit socket ''newGameError'' ''Invalid game ID''], s)
      else case games s gid of
        None \<Rightarrow> ([Emit socket ''newGameError'' ''Game not found''], s)
      | Some game \<Rightarrow>
         (let isPlayer1 = (player1 game = socket); isPlayer2 = (player2 game = socket) in
          if \<not> isPlayer1 \<and> \<not> isPlayer2
          then ([Emit socket ''newGameError'' ''You are not part of this game''], s)
          else
            (let otherPlayer = (if isPlayer1 then player2 game else player1 game)
             in if accept
                then (let game' = resetGame game now
                      in ([Broadcast gid ''newGameStarted'' game'],
                          s\<lparr> games := (games s)(gid \<mapsto> game') \<rparr>))
                else ([Emit otherPlayer ''newGameRejected'' ''declined to start a new game. The current game continues.'',
                       Emit socket ''newGameResponseSent'' ''You declined the new game request. The current game continues.''],
                      s))))"

definition onLeaveGame :: "server \<Rightarrow> socketId \<Rightarrow> event list \<times> server" where
  "onLeaveGame s socket =
     (case connectedPlayers s socket of
        None \<Rightarrow> ([], s)
      | Some playerName \<Rightarrow>
         (let (evs, s1) =
                (case playerGameMap s playerName of
                   None \<Rightarrow> ([], s)
                 | Some gid \<Rightarrow>
                    if gid = [] then ([], s)
                    else (case games s gid of
                       None \<Rightarrow> ([], s)
                     | Some game \<Rightarrow>
                        (let otherPlayer = (if player1 game = socket then player2 game else player1 game)
                         in ([Emit otherPlayer ''opponentLeft'' ''has left the game to start a new one''],
                             s\<lparr> playerGameMap := ((playerGameMap s)(player1Name game := None))
                                                    (player2Name game := None),
                                games := (games s)(gid := None) \<rparr>))))
          in (evs, s1\<lparr> waitingPlayers := remove1 socket (waitingPlayers s1) \<rparr>)))"

definition onReconnectToGame :: "server \<Rightarrow> socketId \<Rightarrow> event list \<times> server" where
  "onReconnectToGame s socket =
     (case connectedPlayers s socket of
        None \<Rightarrow> ([Emit socket ''usernameRequired'' ''Please set your username first''], s)
      | Some playerName \<Rightarrow>
         (case (case playerGameMap s playerName of None \<Rightarrow> [] | Some gid \<Rightarrow> gid) of
            [] \<Rightarrow> ([Emit socket ''reconnectError'' ''No active game found for this player''],
                   s\<lparr> playerGameMap := (playerGameMap s)(playerName := None) \<rparr>)
          | c # cs \<Rightarrow>
             (let gid = c # cs in
              case games s gid of
                None \<Rightarrow> ([Emit socket ''reconnectError'' ''Game no longer exists''],
                          s\<lparr> playerGameMap := (playerGameMap s)(playerName := None) \<rparr>)
              | Some game \<Rightarrow>
                 (let isPlayer1 = (player1Name game = playerName);
                      isPlayer2 = (player2Name game = playerName) in
                  if \<not> isPlayer1 \<and> \<not> isPlayer2
                  then ([Emit socket ''reconnectError'' ''You are not part of this game''], s)
                  else
                    (let game1 = (if isPlayer1 then game\<lparr> player1 := socket \<rparr>
                                  else game\<lparr> player2 := socket \<rparr>);
                         game2 = game1\<lparr> disconnectTimeout := None \<rparr>
                     in ([EmitGame socket ''reconnectedToGame'' game2],
                         s\<lparr> games := (games s)(gid \<mapsto> game2) \<rparr>))))))"

text \<open>
  The explicit disconnect notification. The message carries the game id and the player
  name; \<open>isConnected\<close> tells whether a socket is still connected (\<open>otherPlayer.connected\<close>).
  The handler starts at the check of the message fields.
\<close>

definition onPlayerDisconnect ::
  "server \<Rightarrow> (socketId \<Rightarrow> bool) \<Rightarrow> socketId \<Rightarrow> string \<Rightarrow> string \<Rightarrow> nat \<Rightarrow> event list \<times> server" where
  "onPlayerDisconnect s isConnected socket gid playerName now =
     (if gid = [] \<or> playerName = [] then ([], s)
      else case games s gid of
        None \<Rightarrow> ([], s)
      | Some game \<Rightarrow>
         (let isPlayer1 = (player1Name game = playerName);
              isPlayer2 = (player2Name game = playerName) in
          if \<not> isPlayer1 \<and> \<not> isPlayer2 then ([], s)
          else
            (let otherPlayer = (if isPlayer1 then player2 game else player1 game);
                 evs = (if isConnected otherPlayer
                        then [Emit otherPlayer ''opponentDisconnected'' ''has left the game'']
                        else []);
                 hist = (case gameHistory s gid of
                           None \<Rightarrow> gameHistory s
                         | Some h \<Rightarrow> (gameHistory s)(gid \<mapsto>
                              h\<lparr> hEndedAt := Some now,
                                 hReason := Some ''Player explicitly disconnected'' \<rparr>))
             in (evs, s\<lparr> gameHistory := hist,
                          playerGameMap := ((playerGameMap s)(player1Name game := None))
                                             (player2Name game := None),
                          games := (games s)(gid := None) \<rparr>))))"

section \<open>The writes to a Game object\<close>

text \<open>
  The sites of server.js that assign a field of a \<open>Game\<close> after its construction:
  the move handler (\<open>game.makeMove\<close> with the colour of the sender's seat), the reset
  block of the restart and new-game handlers, the reconnect handler (the seat's socket
  and the timer handle), the transport disconnect handler (the timer handle) and the
  callback of the disconnect timer, which marks the game when the other player is
  still connected: \<open>game.gameOver = true; game.winner = 'disconnect'\<close>.
  The variant of the server with the computer opponent adds \<open>handleAIMove\<close>, which
  calls \<open>game.makeMove\<close> with the colour of the opponent's seat at the cell the
  opponent chose (here: at any cell), and a reset handler with the same reset block.
\<close>

definition timeoutMark :: "game \<Rightarrow> bool \<Rightarrow> game" where
  "timeoutMark g otherConnected =
     (if otherConnected then g\<lparr> gameOver := True, winner := Some ''disconnect'' \<rparr> else g)"

datatype gameOp =
    OpMakeMove socketId int int nat
  | OpReset nat
  | OpReconnect socketId string
  | OpDisconnect socketId
  | OpTimeout bool
  | OpAIMove int int nat

fun applyGameOp :: "game \<Rightarrow> gameOp \<Rightarrow> game" where
  "applyGameOp g (OpMakeMove socket row col now) =
     (if player1 g \<noteq> socket \<and> player2 g \<noteq> socket then g
      else snd (makeMove g row col (if player1 g = socket then black else white) now))"
| "applyGameOp g (OpReset now) = resetGame g now"
| "applyGameOp g (OpReconnect socket playerName) =
     (if player1Name g = playerName then g\<lparr> player1 := socket, disconnectTimeout := None \<rparr>
      else if player2Name g = playerName then g\<lparr> player2 := socket, disconnectTimeout := None \<rparr>
      else g)"
| "applyGameOp g (OpDisconnect socket) =
     (if player1 g = socket \<or> player2 g = socket then g\<lparr> disconnectTimeout := Some socket \<rparr>
      else g)"
| "applyGameOp g (OpTimeout otherConnected) = timeoutMark g otherConnected"
| "applyGameOp g (OpAIMove row col now) =
     (if gameOver g then g
      else snd (makeMove g row col (if player2Name g = ''AI Player'' then white else black) now))"

definition runGameOps :: "game \<Rightarrow> gameOp list \<Rightarrow> game" where
  "runGameOps g ops = foldl applyGameOp g ops"

text \<open>A server with one game in progress, \<open>gapGame\<close>, between ann (socket s1, black)
  and bob (socket s2, white); socket s3 is connected and has claimed no name.\<close>

definition server0 :: server where
  "server0 =
     \<lparr> games = [''g1'' \<mapsto> gapGame],
       waitingPlayers = [],
       startOverRequests = Map.empty,
       gameHistory = Map.empty,
       connectedPlayers = [''s1'' \<mapsto> ''ann'', ''s2'' \<mapsto> ''bob''],
       playerNames = {''ann'', ''bob''},
       playerGameMap = [''ann'' \<mapsto> ''g1'', ''bob'' \<mapsto> ''g1''] \<rparr>"

section \<open>The computer opponent (class AIPlayer)\<close>

text \<open>\<open>getEmptyPositions\<close>: the empty cells in row-major order.\<close>

definition getEmptyPositions :: "board \<Rightarrow> coord list" where
  "getEmptyPositions b = [(row, col). row \<leftarrow> [0..18], col \<leftarrow> [0..18], cellAt b row col = None]"

text \<open>
  The counting loops \<open>for (let i = 1; i < limit; i++)\<close> of \<open>checkWinAtPosition\<close>
  (limit 5) and \<open>findThreatMove\<close> (limit 4), which differ from those of
  \<open>checkWin\<close> in keeping the count only.
\<close>

function countPositive ::
  "board \<Rightarrow> int \<Rightarrow> int \<Rightarrow> int \<Rightarrow> int \<Rightarrow> string \<Rightarrow> int \<Rightarrow> int \<Rightarrow> nat \<Rightarrow> nat" where
  "countPositive b row col dx dy player limit i count =
     (if i < limit then
        (let newRow = row + i * dx; newCol = col + i * dy in
         if newRow \<ge> 0 \<and> newRow < 19 \<and> newCol \<ge> 0 \<and> newCol < 19 \<and>
            cellAt b newRow newCol = Some player
         then countPositive b row col dx dy player limit (i + 1) (count + 1)
         else count)
      else count)"
  by pat_completeness auto
termination
  by (relation "measure (\<lambda>(b, row, col, dx, dy, player, limit, i, count). nat (limit - i))") auto

function countNegative ::
  "board \<Rightarrow> int \<Rightarrow> int \<Rightarrow> int \<Rightarrow> int \<Rightarrow> string \<Rightarrow> int \<Rightarrow> int \<Rightarrow> nat \<Rightarrow> nat" where
  "countNegative b row col dx dy player limit i count =
     (if i < limit then
        (let newRow = row - i * dx; newCol = col - i * dy in
         if newRow \<ge> 0 \<and> newRow < 19 \<and> newCol \<ge> 0 \<and> newCol < 19 \<and>
            cellAt b newRow newCol = Some player
         then countNegative b row col dx dy player limit (i + 1) (count + 1)
         else count)
      else count)"
  by pat_completeness auto
termination
  by (relation "measure (\<lambda>(b, row, col, dx, dy, player, limit, i, count). nat (limit - i))") auto

declare countPositive.simps [simp del] countNegative.simps [simp del]

definition countAxis :: "board \<Rightarrow> int \<Rightarrow> int \<Rightarrow> string \<Rightarrow> int \<Rightarrow> int \<times> int \<Rightarrow> nat" where
  "countAxis b row col player limit d =
     countNegative b row col (fst d) (snd d) player limit 1
       (countPositive b row col (fst d) (snd d) player limit 1 1)"

fun checkWinAtDirs :: "board \<Rightarrow> int \<Rightarrow> int \<Rightarrow> string \<Rightarrow> (int \<times> int) list \<Rightarrow> bool" where
  "checkWinAtDirs b row col player [] = False"
| "checkWinAtDirs b row col player (d # ds) =
     (if countAxis b row col player 5 d \<ge> 5 then True
      else checkWinAtDirs b row col player ds)"

definition checkWinAtPosition :: "board \<Rightarrow> int \<Rightarrow> int \<Rightarrow> string \<Rightarrow> bool" where
  "checkWinAtPosition b row col player = checkWinAtDirs b row col player directions"

text \<open>
  \<open>findWinningMove\<close> writes the stone into the board it is given, tests, and writes
  \<open>null\<close> back; the model returns the board after the call with the result.
\<close>

fun findWinningMove :: "board \<Rightarrow> string \<Rightarrow> coord list \<Rightarrow> coord option \<times> board" where
  "findWinningMove b player [] = (None, b)"
| "findWinningMove b player (pos # rest) =
     (let b1 = setCell b (fst pos) (snd pos) (Some player) in
      if checkWinAtPosition b1 (fst pos) (snd pos) player
      then (Some pos, setCell b1 (fst pos) (snd pos) None)
      else findWinningMove (setCell b1 (fst pos) (snd pos) None) player rest)"

fun threatAtDirs :: "board \<Rightarrow> int \<Rightarrow> int \<Rightarrow> string \<Rightarrow> (int \<times> int) list \<Rightarrow> bool" where
  "threatAtDirs b row col player [] = False"
| "threatAtDirs b row col player (d # ds) =
     (if countAxis b row col player 4 d \<ge> 4 then True
      else threatAtDirs b row col player ds)"

fun findThreatMove :: "board \<Rightarrow> string \<Rightarrow> coord list \<Rightarrow> coord option" where
  "findThreatMove b player [] = None"
| "findThreatMove b player (pos # rest) =
     (if threatAtDirs b (fst pos) (snd pos) player directions then Some pos
      else findThreatMove b player rest)"

text \<open>
  \<open>findStrategicMove\<close>: the score of an empty cell sums, over the occupied cells at
  Manhattan distance at most 3, \<open>(4 - distance)\<close> times 2 for the opponent's own
  stones and 1 for the others, plus half of \<open>18 - centerDistance\<close>. All scores are
  multiples of one half, which JavaScript numbers represent exactly. \<open>Array.sort\<close> is
  stable, so the move returned is the first of those with the highest score.
\<close>

definition positionScore :: "board \<Rightarrow> string \<Rightarrow> coord \<Rightarrow> rat" where
  "positionScore b aiPlayer pos =
     of_int (sum_list
       [(4 - (\<bar>fst pos - row\<bar> + \<bar>snd pos - col\<bar>)) * (if cellAt b row col = Some aiPlayer then 2 else 1).
          row \<leftarrow> [0..18], col \<leftarrow> [0..18],
          cellAt b row col \<noteq> None, \<bar>fst pos - row\<bar> + \<bar>snd pos - col\<bar> \<le> 3])
     + of_int (18 - (\<bar>fst pos - 9\<bar> + \<bar>snd pos - 9\<bar>)) * (1 / 2)"

definition findStrategicMove :: "board \<Rightarrow> string \<Rightarrow> string \<Rightarrow> coord list \<Rightarrow> coord option" where
  "findStrategicMove b aiPlayer humanPlayer emptyPositions =
     (let scoredMoves = map (\<lambda>pos. (pos, positionScore b aiPlayer pos)) emptyPositions;
          sorted = sort_key (\<lambda>m. - snd m) scoredMoves
      in case sorted of [] \<Rightarrow> None | m # ms \<Rightarrow> Some (fst m))"

text \<open>\<open>getRandomMove\<close>; \<open>rnd\<close> is the value of \<open>Math.floor(Math.random() * length)\<close>.\<close>

definition getRandomMove :: "coord list \<Rightarrow> nat \<Rightarrow> coord option" where
  "getRandomMove emptyPositions rnd =
     (if rnd < length emptyPositions then Some (emptyPositions ! rnd) else None)"

definition getBestMove :: "board \<Rightarrow> string \<Rightarrow> string \<Rightarrow> nat \<Rightarrow> coord option \<times> board" where
  "getBestMove b aiPlayer humanPlayer rnd =
     (let emptyPositions = getEmptyPositions b in
      if length emptyPositions = 0 then (None, b)
      else
        (let (winningMove, b1) = findWinningMove b aiPlayer emptyPositions in
         if winningMove \<noteq> None then (winningMove, b1)
         else
           (let (blockingMove, b2) = findWinningMove b1 humanPlayer emptyPositions in
            if blockingMove \<noteq> None then (blockingMove, b2)
            else
              (let threatMove = findThreatMove b2 humanPlayer emptyPositions in
               if threatMove \<noteq> None then (threatMove, b2)
               else
                 (let opportunityMove = findThreatMove b2 aiPlayer emptyPositions in
                  if opportunityMove \<noteq> None then (opportunityMove, b2)
                  else
                    (let strategicMove = findStrategicMove b2 aiPlayer humanPlayer emptyPositions in
                     if strategicMove \<noteq> None then (strategicMove, b2)
                     else (getRandomMove emptyPositions rnd, b2)))))))"

section \<open>Reference predicates for the opponent's move\<close>

text \<open>The cell is on the board and empty.\<close>

definition emptyAt :: "board \<Rightarrow> int \<Rightarrow> int \<Rightarrow> bool" where
  "emptyAt b r c \<longleftrightarrow> 0 \<le> r \<and> r < 19 \<and> 0 \<le> c \<and> c < 19 \<and> cellAt b r c = None"

text \<open>
  An open-ended four, in the words of the specification: four cells of \<open>player\<close> in
  a row from \<open>(row, col)\<close> along \<open>d\<close>, with both extension cells on the board and
  empty.
\<close>

definition openFour :: "board \<Rightarrow> string \<Rightarrow> int \<Rightarrow> int \<Rightarrow> int \<times> int \<Rightarrow> bool" where
  "openFour b player row col d \<longleftrightarrow>
     list_all (\<lambda>k. holdsAt b player (row + k * fst d) (col + k * snd d)) [0..3]
     \<and> emptyAt b (row - fst d) (col - snd d)
     \<and> emptyAt b (row + 4 * fst d) (col + 4 * snd d)"

text \<open>Placing \<open>player\<close>'s stone on \<open>pos\<close> makes a line of five through \<open>pos\<close>.\<close>

definition completesFive :: "board \<Rightarrow> string \<Rightarrow> coord \<Rightarrow> bool" where
  "completesFive b player pos \<longleftrightarrow>
     bruteForceWin (setCell b (fst pos) (snd pos) (Some player)) (fst pos) (snd pos) player"

definition placeStones :: "board \<Rightarrow> (int \<times> int \<times> string) list \<Rightarrow> board" where
  "placeStones b stones = foldl (\<lambda>b' (row, col, player). setCell b' row col (Some player)) b stones"

text \<open>The example of the specification: white stones at (9,5) (9,6) (9,7) (9,8).\<close>

definition whiteFourBoard :: board where
  "whiteFourBoard = placeStones initializeBoard
     [(9, 5, white), (9, 6, white), (9, 7, white), (9, 8, white)]"

text \<open>Black has the open four (9,5) .. (9,8); white holds (3,5) (3,6) (3,8) (3,9) and
  wins at (3,7).\<close>

definition bothFourBoard :: board where
  "bothFourBoard = placeStones initializeBoard
     [(9, 5, black), (9, 6, black), (9, 7, black), (9, 8, black), (15, 15, black),
      (3, 5, white), (3, 6, white), (3, 8, white), (3, 9, white)]"

text \<open>Black holds four cells of row 9 and four cells of column 9 around the empty
  cell (9,9).\<close>

definition crossBoard :: board where
  "crossBoard = placeStones initializeBoard
     [(9, 7, black), (9, 8, black), (9, 10, black), (9, 11, black),
      (7, 9, black), (8, 9, black), (10, 9, black), (11, 9, black)]"

section \<open>Properties of the board engine\<close>

subsection \<open>Move legality\<close>

lemma cellAt_initializeBoard:
  "0 \<le> row \<Longrightarrow> row < 19 \<Longrightarrow> 0 \<le> col \<Longrightarrow> col < 19 \<Longrightarrow> cellAt initializeBoard row col = None"
  by (simp add: cellAt_def initializeBoard_def)

text \<open>
  Claim C3. \<open>isValidMove\<close> accepts a move exactly when the coordinates are in
  \<open>[0, 19)\<close>, the cell is empty, the colour is the current turn and the game is not
  over; when it rejects, the reason is that of the first condition that fails, in the
  order out of bounds, position occupied, not your turn, game over.
\<close>

theorem isValidMove_correct:
  "(isValidMove g row col player = Valid \<longleftrightarrow>
      (0 \<le> row \<and> row < 19 \<and> 0 \<le> col \<and> col < 19) \<and> cellAt (board g) row col = None
      \<and> player = currentPlayer g \<and> \<not> gameOver g)
   \<and> (\<not> (0 \<le> row \<and> row < 19 \<and> 0 \<le> col \<and> col < 19) \<longrightarrow>
        isValidMove g row col player = Invalid ''Move out of bounds'')
   \<and> ((0 \<le> row \<and> row < 19 \<and> 0 \<le> col \<and> col < 19) \<and> cellAt (board g) row col \<noteq> None \<longrightarrow>
        isValidMove g row col player = Invalid ''Position already occupied'')
   \<and> ((0 \<le> row \<and> row < 19 \<and> 0 \<le> col \<and> col < 19) \<and> cellAt (board g) row col = None
        \<and> player \<noteq> currentPlayer g \<longrightarrow>
        isValidMove g row col player = Invalid ''Not your turn'')
   \<and> ((0 \<le> row \<and> row < 19 \<and> 0 \<le> col \<and> col < 19) \<and> cellAt (board g) row col = None
        \<and> player = currentPlayer g \<and> gameOver g \<longrightarrow>
        isValidMove g row col player = Invalid ''Game is over'')"
  by (auto simp: isValidMove_def)

theorem isValidMove_correct_witness:
  "isValidMove (newGame ''g1'' ''s1'' ''s2'' ''ann'' ''bob'' 0) 9 9 black = Valid
   \<and> isValidMove (newGame ''g1'' ''s1'' ''s2'' ''ann'' ''bob'' 0) 19 0 black = Invalid ''Move out of bounds''
   \<and> isValidMove (newGame ''g1'' ''s1'' ''s2'' ''ann'' ''bob'' 0) 9 9 white = Invalid ''Not your turn''"
  using isValidMove_correct [of "newGame ''g1'' ''s1'' ''s2'' ''ann'' ''bob'' 0" 9 9 black]
        isValidMove_correct [of "newGame ''g1'' ''s1'' ''s2'' ''ann'' ''bob'' 0" 19 0 black]
        isValidMove_correct [of "newGame ''g1'' ''s1'' ''s2'' ''ann'' ''bob'' 0" 9 9 white]
  by (simp add: newGame_def cellAt_initializeBoard black_def white_def)

subsection \<open>A rejected move changes nothing\<close>

lemma makeMove_success_iff:
  "success (fst (makeMove g row col player now)) \<longleftrightarrow> isValidMove g row col player = Valid"
  by (simp add: makeMove_def success_def Let_def split: validation.splits)

text \<open>
  Claim C4. When \<open>makeMove\<close> returns a failure, the game after the call is the game
  before it: board, move count, turn, move log, game-over flag and winner (and every
  other field) are unchanged.
\<close>

theorem makeMove_failure_unchanged:
  "\<not> success (fst (makeMove g row col player now)) \<Longrightarrow> snd (makeMove g row col player now) = g"
  by (simp add: makeMove_def success_def Let_def split: validation.splits)

theorem makeMove_failure_unchanged_witness:
  "\<not> success (fst (makeMove (newGame ''g1'' ''s1'' ''s2'' ''ann'' ''bob'' 0) 9 9 white 1))
   \<and> snd (makeMove (newGame ''g1'' ''s1'' ''s2'' ''ann'' ''bob'' 0) 9 9 white 1)
       = newGame ''g1'' ''s1'' ''s2'' ''ann'' ''bob'' 0"
proof -
  have h: "\<not> success (fst (makeMove (newGame ''g1'' ''s1'' ''s2'' ''ann'' ''bob'' 0) 9 9 white 1))"
    by (simp add: makeMove_success_iff isValidMove_def newGame_def cellAt_initializeBoard
          black_def white_def)
  show ?thesis using h makeMove_failure_unchanged [OF h] by simp
qed

subsection \<open>No double move\<close>

lemma makeMove_success_cases:
  assumes "makeMove g row col player now = (r, g')" and "success r"
  shows "currentPlayer g = player \<and> \<not> gameOver g
         \<and> (gameOver g' \<or> currentPlayer g' = (if player = black then white else black))"
  using assms
  by (auto simp: makeMove_def success_def Let_def isValidMove_def
           split: validation.splits if_splits)

lemma gameOver_rejects: "gameOver g \<Longrightarrow> \<not> success (fst (makeMove g row col player now))"
  by (simp add: makeMove_success_iff isValidMove_def)

lemma wrong_turn_rejects:
  "currentPlayer g \<noteq> player \<Longrightarrow> \<not> success (fst (makeMove g row col player now))"
  by (simp add: makeMove_success_iff isValidMove_def)

text \<open>
  Claim C5. If \<open>makeMove\<close> succeeds for a colour, then in the game it leaves behind:
  when the game has not ended, the turn is the opposite colour; when it has ended,
  every further move of either colour is rejected; and in both cases no second move
  of the same colour succeeds, at any cell.
\<close>

theorem no_double_move:
  assumes "makeMove g row col player now = (r, g')" and "success r"
  shows "(\<not> gameOver g' \<longrightarrow>
            currentPlayer g' \<noteq> player
            \<and> (player = black \<longrightarrow> currentPlayer g' = white)
            \<and> (player = white \<longrightarrow> currentPlayer g' = black))
         \<and> (gameOver g' \<longrightarrow> (\<forall>row' col' player' now'.
               \<not> success (fst (makeMove g' row' col' player' now'))))
         \<and> (\<forall>row' col' now'. \<not> success (fst (makeMove g' row' col' player now')))"
proof -
  from makeMove_success_cases [OF assms]
  have c: "gameOver g' \<or> currentPlayer g' = (if player = black then white else black)" by simp
  have bw: "black \<noteq> white" by (simp add: black_def white_def)
  have a: "\<not> gameOver g' \<longrightarrow> currentPlayer g' \<noteq> player
            \<and> (player = black \<longrightarrow> currentPlayer g' = white)
            \<and> (player = white \<longrightarrow> currentPlayer g' = black)"
    using c bw by (cases "player = black") auto
  have b: "gameOver g' \<longrightarrow> (\<forall>row' col' player' now'.
               \<not> success (fst (makeMove g' row' col' player' now')))"
    by (simp add: gameOver_rejects)
  have d: "\<forall>row' col' now'. \<not> success (fst (makeMove g' row' col' player now'))"
  proof (cases "gameOver g'")
    case True then show ?thesis by (simp add: gameOver_rejects)
  next
    case False
    with a have "currentPlayer g' \<noteq> player" by simp
    then show ?thesis by (simp add: wrong_turn_rejects)
  qed
  from a b d show ?thesis by blast
qed

theorem no_double_move_witness:
  "success (fst (makeMove (newGame ''g1'' ''s1'' ''s2'' ''ann'' ''bob'' 0) 9 9 black 1))
   \<and> currentPlayer (snd (makeMove (newGame ''g1'' ''s1'' ''s2'' ''ann'' ''bob'' 0) 9 9 black 1)) = white
   \<and> \<not> success (fst (makeMove (snd (makeMove (newGame ''g1'' ''s1'' ''s2'' ''ann'' ''bob'' 0) 9 9 black 1)) 3 4 black 2))"
proof -
  let ?g = "newGame ''g1'' ''s1'' ''s2'' ''ann'' ''bob'' 0"
  have e: "makeMove ?g 9 9 black 1 = (fst (makeMove ?g 9 9 black 1), snd (makeMove ?g 9 9 black 1))"
    by simp
  have h: "success (fst (makeMove ?g 9 9 black 1))"
    by (simp add: makeMove_success_iff isValidMove_def newGame_def cellAt_initializeBoard)
  have n: "\<not> gameOver (snd (makeMove ?g 9 9 black 1))"
    by code_simp
  show ?thesis using h n no_double_move [OF e h] by simp
qed

subsection \<open>Win detection\<close>

lemma checkWinPositive_stop:
  "\<not> (i < 5 \<and> holdsAt b player (row + i * dx) (col + i * dy)) \<Longrightarrow>
   checkWinPositive b row col dx dy player i cw = cw"
  by (cases cw) (auto simp: checkWinPositive.simps [of b row col dx dy player i] holdsAt_def Let_def)

lemma checkWinPositive_step:
  "i < 5 \<Longrightarrow> holdsAt b player (row + i * dx) (col + i * dy) \<Longrightarrow>
   checkWinPositive b row col dx dy player i cw =
   checkWinPositive b row col dx dy player (i + 1) (fst cw + 1, snd cw @ [(row + i * dx, col + i * dy)])"
  by (cases cw) (simp add: checkWinPositive.simps [of b row col dx dy player i] holdsAt_def Let_def)

lemma checkWinPositive_spec:
  "1 \<le> i \<Longrightarrow> i \<le> 5 \<Longrightarrow>
   \<exists>n::nat. checkWinPositive b row col dx dy player i cw
        = (fst cw + n, snd cw @ map (\<lambda>k. (row + k * dx, col + k * dy)) [i..i + int n - 1])
      \<and> i + int n \<le> 5
      \<and> (\<forall>k. i \<le> k \<and> k < i + int n \<longrightarrow> holdsAt b player (row + k * dx) (col + k * dy))
      \<and> (i + int n < 5 \<longrightarrow> \<not> holdsAt b player (row + (i + int n) * dx) (col + (i + int n) * dy))"
proof (induction b row col dx dy player i cw rule: checkWinPositive.induct)
  case (1 b row col dx dy player i count winningStones)
  show ?case
  proof (cases "i < 5")
    case False
    then show ?thesis using "1.prems"
      by (intro exI [of _ 0]) (auto simp: checkWinPositive_stop)
  next
    case lt: True
    show ?thesis
    proof (cases "holdsAt b player (row + i * dx) (col + i * dy)")
      case False
      then show ?thesis using "1.prems"
        by (intro exI [of _ 0]) (auto simp: checkWinPositive_stop)
    next
      case h: True
      then have c: "row + i * dx \<ge> 0 \<and> row + i * dx < 19 \<and> col + i * dy \<ge> 0 \<and> col + i * dy < 19
                    \<and> cellAt b (row + i * dx) (col + i * dy) = Some player"
        by (simp add: holdsAt_def)
      from "1.IH" [OF lt refl refl c] "1.prems" lt
      obtain n :: nat where
        n: "checkWinPositive b row col dx dy player (i + 1)
              (count + 1, winningStones @ [(row + i * dx, col + i * dy)])
            = (count + 1 + n, (winningStones @ [(row + i * dx, col + i * dy)])
                 @ map (\<lambda>k. (row + k * dx, col + k * dy)) [i + 1..i + 1 + int n - 1])"
          "i + 1 + int n \<le> 5"
          "\<forall>k. i + 1 \<le> k \<and> k < i + 1 + int n \<longrightarrow> holdsAt b player (row + k * dx) (col + k * dy)"
          "i + 1 + int n < 5 \<longrightarrow> \<not> holdsAt b player (row + (i + 1 + int n) * dx) (col + (i + 1 + int n) * dy)"
        by auto
      have u: "[i..i + int n] = i # [i + 1..i + int n]"
        using upto_rec1 [of i "i + int n"] by simp
      have e: "checkWinPositive b row col dx dy player i (count, winningStones)
          = (count + Suc n, winningStones @ map (\<lambda>k. (row + k * dx, col + k * dy)) [i..i + int (Suc n) - 1])"
        using n(1) by (simp add: checkWinPositive_step [OF lt h] u)
      have a: "\<forall>k. i \<le> k \<and> k < i + int (Suc n) \<longrightarrow> holdsAt b player (row + k * dx) (col + k * dy)"
      proof (intro allI impI)
        fix k assume k: "i \<le> k \<and> k < i + int (Suc n)"
        show "holdsAt b player (row + k * dx) (col + k * dy)"
        proof (cases "k = i")
          case True then show ?thesis using h by simp
        next
          case False
          with k have "i + 1 \<le> k \<and> k < i + 1 + int n" by simp
          with n(3) show ?thesis by blast
        qed
      qed
      have s: "i + int (Suc n) = i + 1 + int n" by simp
      show ?thesis
        apply (rule exI [of _ "Suc n"])
        using e a n(2) n(4) unfolding s by simp
    qed
  qed
qed

lemma checkWinNegative_stop:
  "\<not> (i < 5 \<and> holdsAt b player (row - i * dx) (col - i * dy)) \<Longrightarrow>
   checkWinNegative b row col dx dy player i cw = cw"
  by (cases cw) (auto simp: checkWinNegative.simps [of b row col dx dy player i] holdsAt_def Let_def)

lemma checkWinNegative_step:
  "i < 5 \<Longrightarrow> holdsAt b player (row - i * dx) (col - i * dy) \<Longrightarrow>
   checkWinNegative b row col dx dy player i cw =
   checkWinNegative b row col dx dy player (i + 1) (fst cw + 1, (row - i * dx, col - i * dy) # snd cw)"
  by (cases cw) (simp add: checkWinNegative.simps [of b row col dx dy player i] holdsAt_def Let_def)

lemma checkWinNegative_spec:
  "1 \<le> i \<Longrightarrow> i \<le> 5 \<Longrightarrow>
   \<exists>n::nat. checkWinNegative b row col dx dy player i cw
        = (fst cw + n, map (\<lambda>k. (row - k * dx, col - k * dy)) (rev [i..i + int n - 1]) @ snd cw)
      \<and> i + int n \<le> 5
      \<and> (\<forall>k. i \<le> k \<and> k < i + int n \<longrightarrow> holdsAt b player (row - k * dx) (col - k * dy))
      \<and> (i + int n < 5 \<longrightarrow> \<not> holdsAt b player (row - (i + int n) * dx) (col - (i + int n) * dy))"
proof (induction b row col dx dy player i cw rule: checkWinNegative.induct)
  case (1 b row col dx dy player i count winningStones)
  show ?case
  proof (cases "i < 5")
    case False
    then show ?thesis using "1.prems"
      by (intro exI [of _ 0]) (auto simp: checkWinNegative_stop)
  next
    case lt: True
    show ?thesis
    proof (cases "holdsAt b player (row - i * dx) (col - i * dy)")
      case False
      then show ?thesis using "1.prems"
        by (intro exI [of _ 0]) (auto simp: checkWinNegative_stop)
    next
      case h: True
      then have c: "row - i * dx \<ge> 0 \<and> row - i * dx < 19 \<and> col - i * dy \<ge> 0 \<and> col - i * dy < 19
                    \<and> cellAt b (row - i * dx) (col - i * dy) = Some player"
        by (simp add: holdsAt_def)
      from "1.IH" [OF lt refl refl c] "1.prems" lt
      obtain n :: nat where
        n: "checkWinNegative b row col dx dy player (i + 1)
              (count + 1, (row - i * dx, col - i * dy) # winningStones)
            = (count + 1 + n, map (\<lambda>k. (row - k * dx, col - k * dy)) (rev [i + 1..i + 1 + int n - 1])
                 @ (row - i * dx, col - i * dy) # winningStones)"
          "i + 1 + int n \<le> 5"
          "\<forall>k. i + 1 \<le> k \<and> k < i + 1 + int n \<longrightarrow> holdsAt b player (row - k * dx) (col - k * dy)"
          "i + 1 + int n < 5 \<longrightarrow> \<not> holdsAt b player (row - (i + 1 + int n) * dx) (col - (i + 1 + int n) * dy)"
        by auto
      have u: "[i..i + int n] = i # [i + 1..i + int n]"
        using upto_rec1 [of i "i + int n"] by simp
      have e: "checkWinNegative b row col dx dy player i (count, winningStones)
          = (count + Suc n, map (\<lambda>k. (row - k * dx, col - k * dy)) (rev [i..i + int (Suc n) - 1]) @ winningStones)"
        using n(1) by (simp add: checkWinNegative_step [OF lt h] u)
      have a: "\<forall>k. i \<le> k \<and> k < i + int (Suc n) \<longrightarrow> holdsAt b player (row - k * dx) (col - k * dy)"
      proof (intro allI impI)
        fix k assume k: "i \<le> k \<and> k < i + int (Suc n)"
        show "holdsAt b player (row - k * dx) (col - k * dy)"
        proof (cases "k = i")
          case True then show ?thesis using h by simp
        next
          case False
          with k have "i + 1 \<le> k \<and> k < i + 1 + int n" by simp
          with n(3) show ?thesis by blast
        qed
      qed
      have s: "i + int (Suc n) = i + 1 + int n" by simp
      show ?thesis
        apply (rule exI [of _ "Suc n"])
        using e a n(2) n(4) unfolding s by simp
    qed
  qed
qed

lemma map_neg_rev_upto: "map uminus (rev [1..int n]) = [- int n..-1]"
proof (induction n)
  case 0 show ?case by simp
next
  case (Suc n)
  have "[1..int (Suc n)] = [1..int n] @ [int n + 1]"
    using upto_rec2 [of 1 "int n + 1"] by (simp add: add.commute)
  moreover have "[- int (Suc n)..-1] = (- int (Suc n)) # [- int (Suc n) + 1..-1]"
    by (rule upto_rec1) simp
  moreover have "- int (Suc n) + 1 = - int n" by simp
  ultimately show ?case using Suc.IH by simp
qed

lemma checkWinAxis_spec:
  "\<exists>N P. checkWinAxis b row col player (dx, dy)
            = (1 + P + N, map (\<lambda>k. (row + k * dx, col + k * dy)) [- int N..int P])
          \<and> axisRun b player row col dx dy N P"
proof -
  obtain P :: nat where
    P: "checkWinPositive b row col dx dy player 1 (1, [(row, col)])
          = (1 + P, [(row, col)] @ map (\<lambda>k. (row + k * dx, col + k * dy)) [1..1 + int P - 1])"
       "1 + int P \<le> 5"
       "\<forall>k. 1 \<le> k \<and> k < 1 + int P \<longrightarrow> holdsAt b player (row + k * dx) (col + k * dy)"
       "1 + int P < 5 \<longrightarrow> \<not> holdsAt b player (row + (1 + int P) * dx) (col + (1 + int P) * dy)"
    using checkWinPositive_spec [of 1 b row col dx dy player "(1, [(row, col)])"] by auto
  obtain N :: nat where
    N: "checkWinNegative b row col dx dy player 1
          (1 + P, [(row, col)] @ map (\<lambda>k. (row + k * dx, col + k * dy)) [1..1 + int P - 1])
          = (1 + P + N, map (\<lambda>k. (row - k * dx, col - k * dy)) (rev [1..1 + int N - 1])
               @ [(row, col)] @ map (\<lambda>k. (row + k * dx, col + k * dy)) [1..1 + int P - 1])"
       "1 + int N \<le> 5"
       "\<forall>k. 1 \<le> k \<and> k < 1 + int N \<longrightarrow> holdsAt b player (row - k * dx) (col - k * dy)"
       "1 + int N < 5 \<longrightarrow> \<not> holdsAt b player (row - (1 + int N) * dx) (col - (1 + int N) * dy)"
    using checkWinNegative_spec [of 1 b row col dx dy player
            "(1 + P, [(row, col)] @ map (\<lambda>k. (row + k * dx, col + k * dy)) [1..1 + int P - 1])"]
    by auto
  have m: "map (\<lambda>k. (row - k * dx, col - k * dy)) (rev [1..int N])
           = map (\<lambda>k. (row + k * dx, col + k * dy)) [- int N..-1]"
  proof -
    have "map (\<lambda>k. (row - k * dx, col - k * dy)) (rev [1..int N])
          = map (\<lambda>k. (row + k * dx, col + k * dy)) (map uminus (rev [1..int N]))"
      by simp
    then show ?thesis by (simp only: map_neg_rev_upto)
  qed
  have sp: "[- int N..int P] = [- int N..-1] @ 0 # [1..int P]"
    using upto_split3 [of "- int N" 0 "int P"] by simp
  have l: "map (\<lambda>k. (row - k * dx, col - k * dy)) (rev [1..1 + int N - 1])
               @ [(row, col)] @ map (\<lambda>k. (row + k * dx, col + k * dy)) [1..1 + int P - 1]
           = map (\<lambda>k. (row + k * dx, col + k * dy)) [- int N..int P]"
    using m by (simp add: sp)
  have r: "axisRun b player row col dx dy N P"
    unfolding axisRun_def
  proof (intro conjI allI impI)
    show "P \<le> 4" using P(2) by simp
    show "N \<le> 4" using N(2) by simp
    show "\<not> holdsAt b player (row + (int P + 1) * dx) (col + (int P + 1) * dy)" if "P < 4"
      using P(4) that by (simp add: add.commute)
    show "\<not> holdsAt b player (row + (- int N - 1) * dx) (col + (- int N - 1) * dy)" if "N < 4"
    proof -
      have "row + (- int N - 1) * dx = row - (1 + int N) * dx"
           "col + (- int N - 1) * dy = col - (1 + int N) * dy"
        by (simp_all add: algebra_simps)
      then show ?thesis using N(4) that by simp
    qed
    fix k assume k: "- int N \<le> k \<and> k \<le> int P \<and> k \<noteq> 0"
    show "holdsAt b player (row + k * dx) (col + k * dy)"
    proof (cases "0 < k")
      case True
      then show ?thesis using P(3) k by simp
    next
      case False
      with k have "1 \<le> - k \<and> - k < 1 + int N" by simp
      with N(3) have "holdsAt b player (row - (- k) * dx) (col - (- k) * dy)" by blast
      then show ?thesis by simp
    qed
  qed
  show ?thesis
    unfolding checkWinAxis_def using P(1) N(1) l r by auto
qed

lemma axisRun_five:
  assumes piv: "holdsAt b player row col" and run: "axisRun b player row col dx dy N P"
  shows "5 \<le> 1 + P + N \<longleftrightarrow>
         (\<exists>s. 0 \<le> s \<and> s \<le> 4 \<and>
              (\<forall>k. 0 \<le> k \<and> k \<le> 4 \<longrightarrow> holdsAt b player (row + (k - s) * dx) (col + (k - s) * dy)))"
proof
  assume five: "5 \<le> 1 + P + N"
  have N4: "N \<le> 4" using run by (simp add: axisRun_def)
  have "\<forall>k. 0 \<le> k \<and> k \<le> 4 \<longrightarrow>
          holdsAt b player (row + (k - int N) * dx) (col + (k - int N) * dy)"
  proof (intro allI impI)
    fix k :: int assume k: "0 \<le> k \<and> k \<le> 4"
    show "holdsAt b player (row + (k - int N) * dx) (col + (k - int N) * dy)"
    proof (cases "k - int N = 0")
      case True then show ?thesis using piv by simp
    next
      case False
      moreover have "- int N \<le> k - int N \<and> k - int N \<le> int P" using k five by simp
      ultimately show ?thesis using run unfolding axisRun_def by blast
    qed
  qed
  with N4 show "\<exists>s. 0 \<le> s \<and> s \<le> 4 \<and>
      (\<forall>k. 0 \<le> k \<and> k \<le> 4 \<longrightarrow> holdsAt b player (row + (k - s) * dx) (col + (k - s) * dy))"
    by (intro exI [of _ "int N"]) simp
next
  assume "\<exists>s. 0 \<le> s \<and> s \<le> 4 \<and>
      (\<forall>k. 0 \<le> k \<and> k \<le> 4 \<longrightarrow> holdsAt b player (row + (k - s) * dx) (col + (k - s) * dy))"
  then obtain s :: int where s: "0 \<le> s" "s \<le> 4"
    and all: "\<And>k. 0 \<le> k \<Longrightarrow> k \<le> 4 \<Longrightarrow> holdsAt b player (row + (k - s) * dx) (col + (k - s) * dy)"
    by blast
  have nN: "s \<le> int N"
  proof (rule ccontr)
    assume "\<not> s \<le> int N"
    then have lt: "int N < s" by simp
    then have "N < 4" using s by simp
    then have no: "\<not> holdsAt b player (row + (- int N - 1) * dx) (col + (- int N - 1) * dy)"
      using run by (simp add: axisRun_def)
    have "holdsAt b player (row + ((s - int N - 1) - s) * dx) (col + ((s - int N - 1) - s) * dy)"
      using lt s by (intro all) simp_all
    then show False using no by simp
  qed
  have nP: "4 - s \<le> int P"
  proof (rule ccontr)
    assume "\<not> 4 - s \<le> int P"
    then have lt: "int P < 4 - s" by simp
    then have "P < 4" using s by simp
    then have no: "\<not> holdsAt b player (row + (int P + 1) * dx) (col + (int P + 1) * dy)"
      using run by (simp add: axisRun_def)
    have "holdsAt b player (row + ((int P + 1 + s) - s) * dx) (col + ((int P + 1 + s) - s) * dy)"
      using lt s by (intro all) simp_all
    then show False using no by simp
  qed
  from nN nP show "5 \<le> 1 + P + N" by simp
qed

lemma checkWinDirs_won:
  "won (checkWinDirs b row col player ds) \<longleftrightarrow>
   (\<exists>d \<in> set ds. 5 \<le> fst (checkWinAxis b row col player d))"
  by (induction ds) (auto simp: won_def split: prod.splits)

lemma checkWinAxis_five:
  assumes "holdsAt b player row col"
  shows "5 \<le> fst (checkWinAxis b row col player d) \<longleftrightarrow>
         (\<exists>s. 0 \<le> s \<and> s \<le> 4 \<and>
              (\<forall>k. 0 \<le> k \<and> k \<le> 4 \<longrightarrow>
                 holdsAt b player (row + (k - s) * fst d) (col + (k - s) * snd d)))"
proof -
  obtain N P where
    "checkWinAxis b row col player (fst d, snd d)
       = (1 + P + N, map (\<lambda>k. (row + k * fst d, col + k * snd d)) [- int N..int P])"
    and "axisRun b player row col (fst d) (snd d) N P"
    using checkWinAxis_spec [of b row col player "fst d" "snd d"] by blast
  then show ?thesis using axisRun_five [OF assms, of "fst d" "snd d" N P] by simp
qed

lemma line_holds:
  "list_all (\<lambda>(r, c). holdsAt b player r c) (map (\<lambda>k. (r0 + k * dx, c0 + k * dy)) [0..4])
   \<longleftrightarrow> (\<forall>k. 0 \<le> k \<and> k \<le> 4 \<longrightarrow> holdsAt b player (r0 + k * dx) (c0 + k * dy))"
  by (auto simp: list_all_iff)

lemma line_contains:
  "(row, col) \<in> set (map (\<lambda>k. (r0 + k * dx, c0 + k * dy)) [0..4])
   \<longleftrightarrow> (\<exists>s. 0 \<le> s \<and> s \<le> 4 \<and> row = r0 + s * dx \<and> col = c0 + s * dy)"
  by auto

lemma bruteForceWin_iff:
  "bruteForceWin b row col player \<longleftrightarrow>
   (\<exists>d \<in> set directions. \<exists>s. 0 \<le> s \<and> s \<le> 4 \<and>
      (\<forall>k. 0 \<le> k \<and> k \<le> 4 \<longrightarrow>
          holdsAt b player (row + (k - s) * fst d) (col + (k - s) * snd d)))"
  (is "?L \<longleftrightarrow> ?R")
proof
  assume ?L
  then obtain d r0 c0 s where d: "d \<in> set directions"
    and s: "0 \<le> s" "s \<le> 4" "row = r0 + s * fst d" "col = c0 + s * snd d"
    and h: "\<forall>k. 0 \<le> k \<and> k \<le> 4 \<longrightarrow> holdsAt b player (r0 + k * fst d) (c0 + k * snd d)"
    unfolding bruteForceWin_def list_ex_iff Let_def line_holds line_contains by blast
  have "\<forall>k. 0 \<le> k \<and> k \<le> 4 \<longrightarrow>
          holdsAt b player (row + (k - s) * fst d) (col + (k - s) * snd d)"
  proof (intro allI impI)
    fix k :: int assume "0 \<le> k \<and> k \<le> 4"
    with h have "holdsAt b player (r0 + k * fst d) (c0 + k * snd d)" by blast
    moreover have "row + (k - s) * fst d = r0 + k * fst d" "col + (k - s) * snd d = c0 + k * snd d"
      using s by (simp_all add: algebra_simps)
    ultimately show "holdsAt b player (row + (k - s) * fst d) (col + (k - s) * snd d)" by simp
  qed
  with d s show ?R by blast
next
  assume ?R
  then obtain d s where d: "d \<in> set directions" and s: "0 \<le> s" "s \<le> 4"
    and h: "\<And>k. 0 \<le> k \<Longrightarrow> k \<le> 4 \<Longrightarrow>
              holdsAt b player (row + (k - s) * fst d) (col + (k - s) * snd d)"
    by blast
  let ?r0 = "row - s * fst d" and ?c0 = "col - s * snd d"
  have "holdsAt b player (row + (0 - s) * fst d) (col + (0 - s) * snd d)" by (rule h) simp_all
  then have "holdsAt b player ?r0 ?c0" by (simp add: algebra_simps)
  then have in0: "?r0 \<in> set [0..18]" "?c0 \<in> set [0..18]" by (simp_all add: holdsAt_def)
  have c: "\<exists>s'. 0 \<le> s' \<and> s' \<le> 4 \<and> row = ?r0 + s' * fst d \<and> col = ?c0 + s' * snd d"
    using s by (intro exI [of _ s]) simp
  have a: "\<forall>k. 0 \<le> k \<and> k \<le> 4 \<longrightarrow> holdsAt b player (?r0 + k * fst d) (?c0 + k * snd d)"
  proof (intro allI impI)
    fix k :: int assume "0 \<le> k \<and> k \<le> 4"
    then have "holdsAt b player (row + (k - s) * fst d) (col + (k - s) * snd d)" using h by simp
    moreover have "row + (k - s) * fst d = ?r0 + k * fst d" "col + (k - s) * snd d = ?c0 + k * snd d"
      by (simp_all add: algebra_simps)
    ultimately show "holdsAt b player (?r0 + k * fst d) (?c0 + k * snd d)" by simp
  qed
  show ?L
    unfolding bruteForceWin_def list_ex_iff Let_def line_holds line_contains
    using d in0 c a by blast
qed

lemma checkWin_iff_bruteForce:
  assumes "holdsAt b player row col"
  shows "won (checkWin b row col player) \<longleftrightarrow> bruteForceWin b row col player"
  by (simp add: checkWin_def checkWinDirs_won bruteForceWin_iff checkWinAxis_five [OF assms])

lemma cellAt_setCell_same:
  "wfBoard b \<Longrightarrow> 0 \<le> row \<Longrightarrow> row < 19 \<Longrightarrow> 0 \<le> col \<Longrightarrow> col < 19 \<Longrightarrow>
   cellAt (setCell b row col v) row col = v"
  by (simp add: wfBoard_def cellAt_def setCell_def list_all_length)

lemma run_through_cell_wins:
  assumes piv: "holdsAt b player row col" and d: "d \<in> set directions"
    and lo: "lo \<le> 0" and hi: "0 \<le> hi" and len: "4 \<le> hi - lo"
    and run: "\<And>k. lo \<le> k \<Longrightarrow> k \<le> hi \<Longrightarrow> holdsAt b player (row + k * fst d) (col + k * snd d)"
  shows "won (checkWin b row col player)"
proof -
  let ?s = "min 4 (- lo)"
  have "\<forall>k. 0 \<le> k \<and> k \<le> 4 \<longrightarrow>
          holdsAt b player (row + (k - ?s) * fst d) (col + (k - ?s) * snd d)"
    using lo hi len by (intro allI impI run) auto
  moreover have "0 \<le> ?s \<and> ?s \<le> 4" using lo by simp
  ultimately have "5 \<le> fst (checkWinAxis b row col player d)"
    unfolding checkWinAxis_five [OF piv] by blast
  with d show ?thesis by (auto simp: checkWin_def checkWinDirs_won)
qed

text \<open>
  Claim C1. On a 19x19 board, for a cell \<open>(row, col)\<close> of the board and a colour,
  \<open>checkWin\<close> called after that colour's stone was placed on the cell reports a win
  exactly when the brute-force scan finds a line of five cells through the cell, all on
  the board and all of that colour. In particular every contiguous run of five or more
  such cells through the placed cell (the cells \<open>lo..hi\<close> along an axis, with
  \<open>hi - lo \<ge> 4\<close>) is a win; cells off the board never count.
\<close>

theorem checkWin_agrees_with_bruteForce:
  assumes "wfBoard b" and "0 \<le> row" and "row < 19" and "0 \<le> col" and "col < 19"
  shows "(won (checkWin (setCell b row col (Some player)) row col player)
            \<longleftrightarrow> bruteForceWin (setCell b row col (Some player)) row col player)
       \<and> (\<forall>d \<in> set directions. \<forall>lo hi.
             lo \<le> 0 \<and> 0 \<le> hi \<and> 4 \<le> hi - lo
             \<and> (\<forall>k. lo \<le> k \<and> k \<le> hi \<longrightarrow>
                   holdsAt (setCell b row col (Some player)) player (row + k * fst d) (col + k * snd d))
             \<longrightarrow> won (checkWin (setCell b row col (Some player)) row col player))"
proof -
  have piv: "holdsAt (setCell b row col (Some player)) player row col"
    using assms by (simp add: holdsAt_def cellAt_setCell_same)
  show ?thesis
  proof (intro conjI ballI allI impI)
    show "won (checkWin (setCell b row col (Some player)) row col player)
            \<longleftrightarrow> bruteForceWin (setCell b row col (Some player)) row col player"
      by (rule checkWin_iff_bruteForce [OF piv])
  next
    fix d lo hi
    assume "d \<in> set directions"
      and "lo \<le> 0 \<and> 0 \<le> hi \<and> 4 \<le> hi - lo
             \<and> (\<forall>k. lo \<le> k \<and> k \<le> hi \<longrightarrow>
                   holdsAt (setCell b row col (Some player)) player (row + k * fst d) (col + k * snd d))"
    then show "won (checkWin (setCell b row col (Some player)) row col player)"
      using run_through_cell_wins [OF piv, of d lo hi] by blast
  qed
qed

theorem checkWin_agrees_with_bruteForce_witness:
  "wfBoard (board gapGame)
   \<and> won (checkWin (setCell (board gapGame) 9 7 (Some black)) 9 7 black)
   \<and> bruteForceWin (setCell (board gapGame) 9 7 (Some black)) 9 7 black
   \<and> \<not> won (checkWin (setCell (board gapGame) 0 18 (Some black)) 0 18 black)
   \<and> \<not> bruteForceWin (setCell (board gapGame) 0 18 (Some black)) 0 18 black"
proof -
  have w: "wfBoard (board gapGame)" by code_simp
  have a: "won (checkWin (setCell (board gapGame) 9 7 (Some black)) 9 7 black)" by code_simp
  have b: "\<not> won (checkWin (setCell (board gapGame) 0 18 (Some black)) 0 18 black)" by code_simp
  show ?thesis
    using w a b checkWin_agrees_with_bruteForce [OF w, of 9 7 black]
      checkWin_agrees_with_bruteForce [OF w, of 0 18 black]
    by simp
qed

lemma axisRun_unique:
  assumes a: "axisRun b player row col dx dy N P" and a': "axisRun b player row col dx dy N' P'"
  shows "N = N' \<and> P = P'"
proof -
  have le: "P \<le> P' \<and> N \<le> N'"
    if x: "axisRun b player row col dx dy N P" and y: "axisRun b player row col dx dy N' P'"
    for N P N' P'
  proof (intro conjI)
    show "P \<le> P'"
    proof (rule ccontr)
      assume "\<not> P \<le> P'"
      then have lt: "P' < P" by simp
      with x have "P' < 4" by (simp add: axisRun_def)
      with y have no: "\<not> holdsAt b player (row + (int P' + 1) * dx) (col + (int P' + 1) * dy)"
        by (simp add: axisRun_def)
      have "- int N \<le> int P' + 1 \<and> int P' + 1 \<le> int P \<and> int P' + 1 \<noteq> 0" using lt by simp
      with x have "holdsAt b player (row + (int P' + 1) * dx) (col + (int P' + 1) * dy)"
        unfolding axisRun_def by blast
      with no show False by simp
    qed
    show "N \<le> N'"
    proof (rule ccontr)
      assume "\<not> N \<le> N'"
      then have lt: "N' < N" by simp
      with x have "N' < 4" by (simp add: axisRun_def)
      with y have no: "\<not> holdsAt b player (row + (- int N' - 1) * dx) (col + (- int N' - 1) * dy)"
        by (simp add: axisRun_def)
      have "- int N \<le> - int N' - 1 \<and> - int N' - 1 \<le> int P \<and> - int N' - 1 \<noteq> 0" using lt by simp
      with x have "holdsAt b player (row + (- int N' - 1) * dx) (col + (- int N' - 1) * dy)"
        unfolding axisRun_def by blast
      with no show False by simp
    qed
  qed
  from le [OF a a'] le [OF a' a] show ?thesis by simp
qed

lemma checkWinAxis_count:
  "axisRun b player row col (fst d) (snd d) N P \<Longrightarrow>
   fst (checkWinAxis b row col player d) = 1 + P + N"
proof -
  assume r: "axisRun b player row col (fst d) (snd d) N P"
  obtain N' P' where
    np: "checkWinAxis b row col player (fst d, snd d)
       = (1 + P' + N', map (\<lambda>k. (row + k * fst d, col + k * snd d)) [- int N'..int P'])"
    and run: "axisRun b player row col (fst d) (snd d) N' P'"
    using checkWinAxis_spec [of b row col player "fst d" "snd d"] by blast
  from axisRun_unique [OF r run] np show ?thesis by simp
qed

lemma checkWinDirs_Won:
  "checkWinDirs b row col player ds = Won ws \<Longrightarrow>
   \<exists>ds1 d ds2 count. ds = ds1 @ d # ds2
      \<and> (\<forall>d' \<in> set ds1. fst (checkWinAxis b row col player d') < 5)
      \<and> checkWinAxis b row col player d = (count, ws) \<and> 5 \<le> count"
proof (induction ds)
  case Nil then show ?case by simp
next
  case (Cons d0 ds)
  obtain c0 w0 where ax0: "checkWinAxis b row col player d0 = (c0, w0)" by (cases "checkWinAxis b row col player d0")
  show ?case
  proof (cases "5 \<le> c0")
    case True
    with Cons.prems ax0 have "w0 = ws" by simp
    with True ax0 show ?thesis by (intro exI [of _ "[]"] exI [of _ d0] exI [of _ ds] exI [of _ c0]) simp
  next
    case False
    with Cons.prems ax0 have "checkWinDirs b row col player ds = Won ws" by simp
    from Cons.IH [OF this] obtain ds1 d ds2 count where
      x: "ds = ds1 @ d # ds2" "\<forall>d' \<in> set ds1. fst (checkWinAxis b row col player d') < 5"
         "checkWinAxis b row col player d = (count, ws)" "5 \<le> count"
      by blast
    from x False ax0 show ?thesis
      by (intro exI [of _ "d0 # ds1"] exI [of _ d] exI [of _ ds2] exI [of _ count]) simp
  qed
qed

text \<open>
  Claim C2, as amended. When \<open>checkWin\<close> reports a win, the stones it returns are
  the placed cell together with the \<open>N\<close> cells before it and the \<open>P\<close> cells after
  it that the two loops counted along the first winning axis, that is the first axis
  \<open>d\<close> in the order of \<open>directions\<close> whose run reaches five; on every axis
  before it the run through the cell is shorter than five. The stones are between 5
  and 9 coordinates (not always 5), consecutive cells of the axis listed in board
  order, that is by increasing offset along the direction vector, whatever the order
  of play.
\<close>

theorem checkWin_winningStones:
  assumes "checkWin b row col player = Won ws"
  shows "\<exists>ds1 d ds2 N P.
           directions = ds1 @ d # ds2
           \<and> (\<forall>d' \<in> set ds1. \<forall>N' P'.
                 axisRun b player row col (fst d') (snd d') N' P' \<longrightarrow> 1 + P' + N' < 5)
           \<and> ws = map (\<lambda>k. (row + k * fst d, col + k * snd d)) [- int N..int P]
           \<and> length ws = 1 + P + N \<and> 5 \<le> length ws \<and> length ws \<le> 9
           \<and> axisRun b player row col (fst d) (snd d) N P"
proof -
  from assms obtain ds1 d ds2 count where dec: "directions = ds1 @ d # ds2"
    and early: "\<forall>d' \<in> set ds1. fst (checkWinAxis b row col player d') < 5"
    and ax: "checkWinAxis b row col player d = (count, ws)" and five: "5 \<le> count"
    using checkWinDirs_Won [of b row col player directions ws] by (auto simp: checkWin_def)
  obtain N P where
    np: "checkWinAxis b row col player (fst d, snd d)
       = (1 + P + N, map (\<lambda>k. (row + k * fst d, col + k * snd d)) [- int N..int P])"
    and run: "axisRun b player row col (fst d) (snd d) N P"
    using checkWinAxis_spec [of b row col player "fst d" "snd d"] by blast
  from ax np have c: "count = 1 + P + N"
    and w: "ws = map (\<lambda>k. (row + k * fst d, col + k * snd d)) [- int N..int P]"
    by simp_all
  have l: "length ws = 1 + P + N" unfolding w by simp
  have "P \<le> 4" "N \<le> 4" using run by (simp_all add: axisRun_def)
  with l five c have b59: "5 \<le> length ws" "length ws \<le> 9" by simp_all
  have e: "\<forall>d' \<in> set ds1. \<forall>N' P'.
             axisRun b player row col (fst d') (snd d') N' P' \<longrightarrow> 1 + P' + N' < 5"
  proof (intro ballI allI impI)
    fix d' N' P'
    assume "d' \<in> set ds1" and "axisRun b player row col (fst d') (snd d') N' P'"
    with early checkWinAxis_count [of b player row col d' N' P'] show "1 + P' + N' < 5" by auto
  qed
  from dec e w l b59 run show ?thesis by blast
qed

theorem checkWin_winningStones_witness:
  "checkWin (setCell crossBoard 9 9 (Some black)) 9 9 black
     = Won [(9, 7), (9, 8), (9, 9), (9, 10), (9, 11)]
   \<and> (\<exists>ds1 d ds2 N P.
        directions = ds1 @ d # ds2
        \<and> (\<forall>d' \<in> set ds1. \<forall>N' P'.
              axisRun (setCell crossBoard 9 9 (Some black)) black 9 9 (fst d') (snd d') N' P'
                \<longrightarrow> 1 + P' + N' < 5)
        \<and> [(9, 7), (9, 8), (9, 9), (9, 10), (9, 11)]
            = map (\<lambda>k. (9 + k * fst d, 9 + k * snd d)) [- int N..int P]
        \<and> length [(9, 7), (9, 8), (9, 9), (9, 10), (9 :: int, 11 :: int)] = 1 + P + N
        \<and> 5 \<le> length [(9, 7), (9, 8), (9, 9), (9, 10), (9 :: int, 11 :: int)]
        \<and> length [(9, 7), (9, 8), (9, 9), (9, 10), (9 :: int, 11 :: int)] \<le> 9
        \<and> axisRun (setCell crossBoard 9 9 (Some black)) black 9 9 (fst d) (snd d) N P)
   \<and> checkWin (setCell (board columnGame) 7 3 (Some black)) 7 3 black
     = Won [(3, 3), (4, 3), (5, 3), (6, 3), (7, 3)]"
proof -
  have h: "checkWin (setCell crossBoard 9 9 (Some black)) 9 9 black
             = Won [(9, 7), (9, 8), (9, 9), (9, 10), (9, 11)]"
    by code_simp
  have c: "checkWin (setCell (board columnGame) 7 3 (Some black)) 7 3 black
             = Won [(3, 3), (4, 3), (5, 3), (6, 3), (7, 3)]"
    by code_simp
  show ?thesis by (intro conjI h c checkWin_winningStones [OF h])
qed

text \<open>
  The claim as stated fails: when black fills the gap at (9,7) between (9,5) (9,6) and
  (9,8) (9,9) (9,10), \<open>checkWin\<close> returns six stones.
\<close>

theorem checkWin_six_stones_counterexample:
  "checkWin (setCell (board gapGame) 9 7 (Some black)) 9 7 black
     = Won [(9, 5), (9, 6), (9, 7), (9, 8), (9, 9), (9, 10)]
   \<and> length [(9, 5), (9, 6), (9, 7), (9, 8), (9, 9), (9 :: int, 10 :: int)] \<noteq> 5"
  by code_simp

section \<open>Properties of the session handlers\<close>

lemma gapGame_seats:
  "player1 gapGame = ''s1''" "player2 gapGame = ''s2''"
  "player1Name gapGame = ''ann''" "player2Name gapGame = ''bob''" "gameId gapGame = ''g1''"
  by code_simp+

lemma gapGame_in_progress:
  "moveCount gapGame = 10" "\<not> gameOver gapGame" "winner gapGame = None" "currentPlayer gapGame = black"
  "cellAt (board gapGame) 9 5 = Some black"
  by code_simp+

lemma resetGame_fields:
  "board (resetGame g now) = initializeBoard" "currentPlayer (resetGame g now) = black"
  "winner (resetGame g now) = None" "gameOver (resetGame g now) = False"
  "moveCount (resetGame g now) = 0" "moveHistory (resetGame g now) = []"
  "gameId (resetGame g now) = gameId g"
  "player1 (resetGame g now) = player1 g" "player2 (resetGame g now) = player2 g"
  "player1Name (resetGame g now) = player1Name g" "player2Name (resetGame g now) = player2Name g"
  by (simp_all add: resetGame_def)




lemma onRequestNewGame_state: "snd (onRequestNewGame s socket gid) = s"
  by (simp add: onRequestNewGame_def Let_def split: option.splits)

text \<open>
  Claim C10. The new-game response handler keeps no record of a pending proposal and
  checks none: whenever a participant of a live game sends the response with
  \<open>accept = true\<close>, the game is reset (board emptied, turn black, outcome cleared, move
  count zero) and nothing else changes; the request handler itself never changes the
  state, so there is nothing a response could be checked against.
\<close>

theorem respondToNewGame_resets_unconditionally:
  assumes "connectedPlayers s socket \<noteq> None" and "gid \<noteq> []" and "games s gid = Some g"
    and "socket = player1 g \<or> socket = player2 g"
  shows "snd (onRespondToNewGame s socket gid True now)
           = s\<lparr> games := (games s)(gid \<mapsto> resetGame g now) \<rparr>
         \<and> board (resetGame g now) = initializeBoard
         \<and> currentPlayer (resetGame g now) = black
         \<and> winner (resetGame g now) = None \<and> gameOver (resetGame g now) = False
         \<and> moveCount (resetGame g now) = 0
         \<and> (\<forall>socket' gid'. snd (onRequestNewGame s socket' gid') = s)"
  using assms by (auto simp: onRespondToNewGame_def Let_def resetGame_fields onRequestNewGame_state)

theorem respondToNewGame_resets_unconditionally_witness:
  "moveCount gapGame = 10 \<and> \<not> gameOver gapGame
   \<and> games server0 ''g1'' = Some gapGame
   \<and> snd (onRespondToNewGame server0 ''s2'' ''g1'' True 7)
       = server0\<lparr> games := (games server0)(''g1'' \<mapsto> resetGame gapGame 7) \<rparr>
   \<and> board (resetGame gapGame 7) = initializeBoard
   \<and> moveCount (resetGame gapGame 7) = 0"
proof -
  have 1: "connectedPlayers server0 ''s2'' \<noteq> None" by (simp add: server0_def)
  have 2: "''g1'' \<noteq> []" by simp
  have 3: "games server0 ''g1'' = Some gapGame" by (simp add: server0_def)
  have 4: "''s2'' = player1 gapGame \<or> ''s2'' = player2 gapGame" by (simp add: gapGame_seats)
  show ?thesis
    using respondToNewGame_resets_unconditionally [OF 1 2 3 4, of 7] 3 gapGame_in_progress
    by simp
qed

lemma unauthenticated_refused:
  assumes "connectedPlayers s socket = None"
  shows "onMakeMove s socket gid row col now
           = ([Emit socket ''usernameRequired'' ''Please set your username first''], s)"
    and "onRequestStartOver s socket gid now
           = ([Emit socket ''usernameRequired'' ''Please set your username first''], s)"
    and "onRequestNewGame s socket gid
           = ([Emit socket ''usernameRequired'' ''Please set your username first''], s)"
    and "onRespondToNewGame s socket gid accept now
           = ([Emit socket ''usernameRequired'' ''Please set your username first''], s)"
    and "onReconnectToGame s socket
           = ([Emit socket ''usernameRequired'' ''Please set your username first''], s)"
    and "onLeaveGame s socket = ([], s)"
  using assms
  by (simp_all add: onMakeMove_def onRequestStartOver_def onRequestNewGame_def
        onRespondToNewGame_def onReconnectToGame_def onLeaveGame_def)

text \<open>
  Claim C9. The explicit disconnect notification is not refused on a socket without a
  claimed name: socket s3 has no name, names ann's game g1 in the message, and the
  handler removes the game and both players' mappings and notifies bob. The six other
  session handlers refuse such a socket and leave the state as it was
  (\<open>unauthenticated_refused\<close>).
\<close>

theorem playerDisconnect_without_identity:
  "connectedPlayers server0 ''s3'' = None
   \<and> games server0 ''g1'' = Some gapGame
   \<and> playerGameMap server0 ''bob'' = Some ''g1''
   \<and> games (snd (onPlayerDisconnect server0 (\<lambda>x. True) ''s3'' ''g1'' ''ann'' 5)) ''g1'' = None
   \<and> playerGameMap (snd (onPlayerDisconnect server0 (\<lambda>x. True) ''s3'' ''g1'' ''ann'' 5)) ''bob'' = None
   \<and> fst (onPlayerDisconnect server0 (\<lambda>x. True) ''s3'' ''g1'' ''ann'' 5)
       = [Emit ''s2'' ''opponentDisconnected'' ''has left the game'']"
  by (simp add: server0_def onPlayerDisconnect_def Let_def gapGame_seats)

lemma makeMove_winner:
  assumes "player = black \<or> player = white"
    and "winner g \<in> {None, Some ''black'', Some ''white'', Some ''draw'', Some ''disconnect''}"
  shows "winner (snd (makeMove g row col player now))
           \<in> {None, Some ''black'', Some ''white'', Some ''draw'', Some ''disconnect''}"
  using assms
  by (auto simp: makeMove_def Let_def black_def white_def split: validation.splits)

lemma applyGameOp_winner:
  assumes "winner g \<in> {None, Some ''black'', Some ''white'', Some ''draw'', Some ''disconnect''}"
  shows "winner (applyGameOp g op)
           \<in> {None, Some ''black'', Some ''white'', Some ''draw'', Some ''disconnect''}"
proof (cases op)
  case (OpMakeMove socket row col now)
  then show ?thesis using assms makeMove_winner [of "if player1 g = socket then black else white" g]
    by simp
next
  case (OpReset now) then show ?thesis by (simp add: resetGame_def)
next
  case (OpReconnect socket playerName) then show ?thesis using assms by simp
next
  case (OpDisconnect socket) then show ?thesis using assms by simp
next
  case (OpTimeout c) then show ?thesis using assms by (simp add: timeoutMark_def)
next
  case (OpAIMove row col now)
  then show ?thesis
    using assms makeMove_winner [of "if player2Name g = ''AI Player'' then white else black" g]
    by simp
qed

lemma foldl_applyGameOp_winner:
  "winner g \<in> {None, Some ''black'', Some ''white'', Some ''draw'', Some ''disconnect''} \<Longrightarrow>
   winner (foldl applyGameOp g ops)
     \<in> {None, Some ''black'', Some ''white'', Some ''draw'', Some ''disconnect''}"
proof (induction ops arbitrary: g)
  case Nil then show ?case by simp
next
  case (Cons op ops)
  from Cons.IH [OF applyGameOp_winner [OF Cons.prems]] show ?case by simp
qed

text \<open>
  Claim C7. Whatever operations are applied to a game after its construction, its
  \<open>winner\<close> field is \<open>null\<close> (outcome none), \<open>'black'\<close>, \<open>'white'\<close>, \<open>'draw'\<close>
  or \<open>'disconnect'\<close> (outcome abandoned): no write assigns any other value.
\<close>

theorem outcome_values:
  "winner (runGameOps (newGame gid p1 p2 p1Name p2Name t) ops)
     \<in> {None, Some ''black'', Some ''white'', Some ''draw'', Some ''disconnect''}"
  unfolding runGameOps_def
  by (rule foldl_applyGameOp_winner) (simp add: newGame_def)

theorem outcome_values_witness:
  "winner (runGameOps (newGame ''g1'' ''s1'' ''s2'' ''ann'' ''bob'' 0)
             [OpMakeMove ''s1'' 9 9 1, OpDisconnect ''s2'', OpTimeout True]) = Some ''disconnect''
   \<and> Some ''disconnect'' \<in> {None, Some ''black'', Some ''white'', Some ''draw'', Some ''disconnect''}"
proof -
  have "winner (runGameOps (newGame ''g1'' ''s1'' ''s2'' ''ann'' ''bob'' 0)
             [OpMakeMove ''s1'' 9 9 1, OpDisconnect ''s2'', OpTimeout True]) = Some ''disconnect''"
    by code_simp
  then show ?thesis
    using outcome_values [of "''g1''" "''s1''" "''s2''" "''ann''" "''bob''" 0
            "[OpMakeMove ''s1'' 9 9 1, OpDisconnect ''s2'', OpTimeout True]"]
    by simp
qed

section \<open>Properties of the computer opponent\<close>

lemma countPositive_checkWin:
  "countPositive b row col dx dy player 5 i (fst cw)
     = fst (checkWinPositive b row col dx dy player i cw)"
proof (induction b row col dx dy player i cw rule: checkWinPositive.induct)
  case (1 b row col dx dy player i count winningStones)
  show ?case
  proof (cases "i < 5 \<and> holdsAt b player (row + i * dx) (col + i * dy)")
    case True
    then have c: "row + i * dx \<ge> 0 \<and> row + i * dx < 19 \<and> col + i * dy \<ge> 0 \<and> col + i * dy < 19
                    \<and> cellAt b (row + i * dx) (col + i * dy) = Some player"
      by (simp add: holdsAt_def)
    from True "1.IH" [OF _ refl refl c] show ?thesis
      by (simp add: countPositive.simps [of b row col dx dy player 5 i]
            checkWinPositive.simps [of b row col dx dy player i] holdsAt_def Let_def)
  next
    case False
    then show ?thesis
      by (auto simp: countPositive.simps [of b row col dx dy player 5 i]
            checkWinPositive.simps [of b row col dx dy player i] holdsAt_def Let_def)
  qed
qed

lemma countNegative_checkWin:
  "countNegative b row col dx dy player 5 i (fst cw)
     = fst (checkWinNegative b row col dx dy player i cw)"
proof (induction b row col dx dy player i cw rule: checkWinNegative.induct)
  case (1 b row col dx dy player i count winningStones)
  show ?case
  proof (cases "i < 5 \<and> holdsAt b player (row - i * dx) (col - i * dy)")
    case True
    then have c: "row - i * dx \<ge> 0 \<and> row - i * dx < 19 \<and> col - i * dy \<ge> 0 \<and> col - i * dy < 19
                    \<and> cellAt b (row - i * dx) (col - i * dy) = Some player"
      by (simp add: holdsAt_def)
    from True "1.IH" [OF _ refl refl c] show ?thesis
      by (simp add: countNegative.simps [of b row col dx dy player 5 i]
            checkWinNegative.simps [of b row col dx dy player i] holdsAt_def Let_def)
  next
    case False
    then show ?thesis
      by (auto simp: countNegative.simps [of b row col dx dy player 5 i]
            checkWinNegative.simps [of b row col dx dy player i] holdsAt_def Let_def)
  qed
qed

lemma countAxis_checkWinAxis:
  "countAxis b row col player 5 d = fst (checkWinAxis b row col player d)"
proof -
  have "countPositive b row col (fst d) (snd d) player 5 1 1
          = fst (checkWinPositive b row col (fst d) (snd d) player 1 (1, [(row, col)]))"
    using countPositive_checkWin [of b row col "fst d" "snd d" player 1 "(1, [(row, col)])"]
    by simp
  then show ?thesis
    unfolding countAxis_def checkWinAxis_def
    by (simp add: countNegative_checkWin)
qed

lemma checkWinAtDirs_iff:
  "checkWinAtDirs b row col player ds \<longleftrightarrow> (\<exists>d \<in> set ds. 5 \<le> countAxis b row col player 5 d)"
  by (induction ds) auto

lemma checkWinAtPosition_checkWin:
  "checkWinAtPosition b row col player = won (checkWin b row col player)"
  by (simp add: checkWinAtPosition_def checkWinAtDirs_iff checkWin_def checkWinDirs_won
        countAxis_checkWinAxis)

lemma cellAt_setCell_other:
  "(r, c) \<noteq> (row, col) \<Longrightarrow> 0 \<le> r \<Longrightarrow> 0 \<le> c \<Longrightarrow> 0 \<le> row \<Longrightarrow> 0 \<le> col \<Longrightarrow>
   cellAt (setCell b row col v) r c = cellAt b r c"
proof (cases "nat row < length b")
  case False
  then show ?thesis by (simp add: cellAt_def setCell_def list_update_beyond)
next
  case True
  assume "(r, c) \<noteq> (row, col)" "0 \<le> r" "0 \<le> c" "0 \<le> row" "0 \<le> col"
  with True show ?thesis
    by (cases "r = row") (auto simp: cellAt_def setCell_def nth_list_update)
qed

lemma setCell_restore:
  assumes "wfBoard b" and "0 \<le> row" and "row < 19" and "0 \<le> col" and "col < 19"
    and "cellAt b row col = None"
  shows "setCell (setCell b row col v) row col None = b"
proof -
  have r: "nat row < length b" using assms by (simp add: wfBoard_def)
  have "(b ! nat row)[nat col := None] = b ! nat row"
    using assms(6) list_update_id [of "b ! nat row" "nat col"] by (simp add: cellAt_def)
  with r show ?thesis by (simp add: setCell_def)
qed

lemma findWinningMove_find:
  assumes "wfBoard b"
    and "\<forall>pos \<in> set ps. emptyAt b (fst pos) (snd pos)"
  shows "findWinningMove b player ps = (find (completesFive b player) ps, b)"
  using assms(2)
proof (induction ps)
  case Nil show ?case by simp
next
  case (Cons pos ps)
  then have e: "emptyAt b (fst pos) (snd pos)" by simp
  then have inb: "0 \<le> fst pos" "fst pos < 19" "0 \<le> snd pos" "snd pos < 19"
    and n: "cellAt b (fst pos) (snd pos) = None"
    by (simp_all add: emptyAt_def)
  have restore: "setCell (setCell b (fst pos) (snd pos) (Some player)) (fst pos) (snd pos) None = b"
    by (rule setCell_restore [OF assms(1) inb n])
  have piv: "holdsAt (setCell b (fst pos) (snd pos) (Some player)) player (fst pos) (snd pos)"
    using inb assms(1) by (simp add: holdsAt_def cellAt_setCell_same)
  have w: "checkWinAtPosition (setCell b (fst pos) (snd pos) (Some player)) (fst pos) (snd pos) player
            \<longleftrightarrow> completesFive b player pos"
    by (simp add: checkWinAtPosition_checkWin checkWin_iff_bruteForce [OF piv] completesFive_def)
  from Cons show ?case by (simp add: Let_def restore w)
qed

lemma set_getEmptyPositions:
  "set (getEmptyPositions b) = {(r, c). emptyAt b r c}"
  by (auto simp: getEmptyPositions_def emptyAt_def)

lemma directions_nonzero:
  "d \<in> set directions \<Longrightarrow> (fst d = 0 \<or> fst d = 1) \<and> (snd d = 1 \<or> (fst d = 1 \<and> (snd d = 0 \<or> snd d = -1)))"
  by (auto simp: directions_def)

lemma openFour_completing_cell:
  assumes wf: "wfBoard b" and d: "d \<in> set directions" and four: "openFour b player row col d"
  shows "completesFive b player (row - fst d, col - snd d)"
proof -
  let ?r = "row - fst d" and ?c = "col - snd d"
  let ?b = "setCell b ?r ?c (Some player)"
  from four have e: "emptyAt b ?r ?c"
    and run: "\<And>k. 0 \<le> k \<Longrightarrow> k \<le> 3 \<Longrightarrow> holdsAt b player (row + k * fst d) (col + k * snd d)"
    by (auto simp: openFour_def list_all_iff)
  from e have inb: "0 \<le> ?r" "?r < 19" "0 \<le> ?c" "?c < 19" by (simp_all add: emptyAt_def)
  have piv: "holdsAt ?b player ?r ?c"
    using inb wf by (simp add: holdsAt_def cellAt_setCell_same)
  have cells: "holdsAt ?b player (?r + k * fst d) (?c + k * snd d)" if k: "0 \<le> k" "k \<le> 4" for k
  proof (cases "k = 0")
    case True then show ?thesis using piv by simp
  next
    case False
    with k have k1: "0 \<le> k - 1" "k - 1 \<le> 3" by simp_all
    have eq: "?r + k * fst d = row + (k - 1) * fst d" "?c + k * snd d = col + (k - 1) * snd d"
      by (simp_all add: algebra_simps)
    have h: "holdsAt b player (row + (k - 1) * fst d) (col + (k - 1) * snd d)"
      by (rule run [OF k1])
    have ne: "(row + (k - 1) * fst d, col + (k - 1) * snd d) \<noteq> (?r, ?c)"
    proof
      assume "(row + (k - 1) * fst d, col + (k - 1) * snd d) = (?r, ?c)"
      then have "k * fst d = 0" "k * snd d = 0" by (simp_all add: algebra_simps)
      with False have "fst d = 0 \<and> snd d = 0" by simp
      with directions_nonzero [OF d] show False by auto
    qed
    from h have "cellAt ?b (row + (k - 1) * fst d) (col + (k - 1) * snd d)
                 = cellAt b (row + (k - 1) * fst d) (col + (k - 1) * snd d)"
      using inb by (intro cellAt_setCell_other [OF ne]) (simp_all add: holdsAt_def)
    with h show ?thesis unfolding eq by (simp add: holdsAt_def)
  qed
  have "won (checkWin ?b ?r ?c player)"
    by (rule run_through_cell_wins [OF piv d, of 0 4]) (simp_all add: cells)
  then show ?thesis
    by (simp add: completesFive_def checkWin_iff_bruteForce [OF piv])
qed

lemma getBestMove_priorities:
  assumes wf: "wfBoard b"
    and ex: "find (completesFive b aiPlayer) (getEmptyPositions b) \<noteq> None
             \<or> find (completesFive b humanPlayer) (getEmptyPositions b) \<noteq> None"
  shows "getBestMove b aiPlayer humanPlayer rnd =
           ((case find (completesFive b aiPlayer) (getEmptyPositions b) of
               Some pos \<Rightarrow> Some pos
             | None \<Rightarrow> find (completesFive b humanPlayer) (getEmptyPositions b)), b)"
proof -
  have e: "\<forall>pos \<in> set (getEmptyPositions b). emptyAt b (fst pos) (snd pos)"
    by (auto simp: set_getEmptyPositions)
  have ne: "getEmptyPositions b \<noteq> []" using ex by auto
  show ?thesis
    using ex ne
    by (auto simp: getBestMove_def Let_def findWinningMove_find [OF wf e] split: option.splits)
qed

text \<open>
  Claim C8, as amended. On a 19x19 board with an open-ended four of either colour,
  \<open>getBestMove\<close> returns an empty cell and leaves the board as it was. The cell is
  the first empty cell in row-major order that completes five for the opponent's own
  colour, whenever there is such a cell, which is always so when the run is its own
  colour (priority 1). Only when there is none is it the first empty cell at which the
  human's colour would complete five (priority 2); it then blocks a one-move win of
  the human. The move need not be an end of the given run.
\<close>

theorem getBestMove_open_four:
  assumes "wfBoard b" and "d \<in> set directions" and "openFour b player row col d"
    and "player = aiPlayer \<or> player = humanPlayer"
  shows "\<exists>pos. getBestMove b aiPlayer humanPlayer rnd = (Some pos, b)
           \<and> pos \<in> set (getEmptyPositions b)
           \<and> Some pos = (case find (completesFive b aiPlayer) (getEmptyPositions b) of
                            Some p \<Rightarrow> Some p
                          | None \<Rightarrow> find (completesFive b humanPlayer) (getEmptyPositions b))
           \<and> (player = aiPlayer \<longrightarrow> completesFive b aiPlayer pos)
           \<and> ((\<exists>q \<in> set (getEmptyPositions b). completesFive b aiPlayer q)
                 \<longrightarrow> completesFive b aiPlayer pos)
           \<and> (\<not> (\<exists>q \<in> set (getEmptyPositions b). completesFive b aiPlayer q)
                 \<longrightarrow> completesFive b humanPlayer pos)"
proof -
  let ?E = "getEmptyPositions b"
  let ?q = "(row - fst d, col - snd d)"
  have q: "?q \<in> set ?E" using assms(3) by (simp add: set_getEmptyPositions openFour_def)
  have cq: "completesFive b player ?q" by (rule openFour_completing_cell [OF assms(1,2,3)])
  have fp: "find (completesFive b player) ?E \<noteq> None"
    using q cq by (auto simp: find_None_iff)
  then have ex: "find (completesFive b aiPlayer) ?E \<noteq> None
             \<or> find (completesFive b humanPlayer) ?E \<noteq> None"
    using assms(4) by auto
  note gb = getBestMove_priorities [OF assms(1) ex, of rnd]
  show ?thesis
  proof (cases "find (completesFive b aiPlayer) ?E")
    case (Some pos)
    then have "pos \<in> set ?E" "completesFive b aiPlayer pos"
      by (auto simp: find_Some_iff in_set_conv_nth)
    with Some gb show ?thesis by auto
  next
    case None
    then have no: "\<not> (\<exists>q \<in> set ?E. completesFive b aiPlayer q)" by (auto simp: find_None_iff)
    with fp assms(4) None have pl: "player = humanPlayer" "player \<noteq> aiPlayer" by auto
    from ex None obtain pos where f: "find (completesFive b humanPlayer) ?E = Some pos" by auto
    then have "pos \<in> set ?E" "completesFive b humanPlayer pos"
      by (auto simp: find_Some_iff in_set_conv_nth)
    with None f gb no pl show ?thesis by auto
  qed
qed

theorem getBestMove_open_four_witness:
  "wfBoard whiteFourBoard \<and> openFour whiteFourBoard white 9 5 (0, 1)
   \<and> getBestMove whiteFourBoard white black 0 = (Some (9, 4), whiteFourBoard)
   \<and> completesFive whiteFourBoard white (9, 4)
   \<and> getBestMove whiteFourBoard black white 0 = (Some (9, 4), whiteFourBoard)"
proof -
  have w: "wfBoard whiteFourBoard" by code_simp
  have d: "(0, 1) \<in> set directions" by (simp add: directions_def)
  have f: "openFour whiteFourBoard white 9 5 (0, 1)" by code_simp
  have own: "fst (getBestMove whiteFourBoard white black 0) = Some (9, 4)" by code_simp
  have opp: "fst (getBestMove whiteFourBoard black white 0) = Some (9, 4)" by code_simp
  from getBestMove_open_four [OF w d f, of white black 0] own
  have 1: "getBestMove whiteFourBoard white black 0 = (Some (9, 4), whiteFourBoard)
           \<and> completesFive whiteFourBoard white (9, 4)"
    by auto
  from getBestMove_open_four [OF w d f, of black white 0] opp
  have 2: "getBestMove whiteFourBoard black white 0 = (Some (9, 4), whiteFourBoard)"
    by auto
  from w f 1 2 show ?thesis by simp
qed

text \<open>
  The claim as stated fails where the opponent can win itself: black has the open four
  (9,5) .. (9,8), white to move completes its own five at (3,7) and does not block.
\<close>

theorem getBestMove_prefers_own_win_counterexample:
  "openFour bothFourBoard black 9 5 (0, 1)
   \<and> fst (getBestMove bothFourBoard white black 0) = Some (3, 7)
   \<and> \<not> completesFive bothFourBoard black (3, 7)"
  by code_simp

end
